theory Spec2Isabelle
  imports Complex_Main "HOL-Library.Word"
begin

section \<open>Life in weeks: the grid pipeline\<close>

text \<open>
  A shallow embedding of \<^verbatim>\<open>src/app/utils/grid-layout.ts\<close> (the width model and the
  greedy row packer) and of the body of the \<^verbatim>\<open>WeeksGrid\<close> component (the calendar
  walk that emits the boxes and the milestone colour pass).
\<close>

subsection \<open>JavaScript numbers\<close>

text \<open>
  A measured width is a JavaScript number: it may be \<^verbatim>\<open>NaN\<close> or infinite. Finite values
  are kept as exact rationals (the rounding of a double is not modelled; negative zero is
  identified with zero). The operations are the ones the layout code uses.
\<close>

datatype jsnum = NaN | NegInf | Fin rat | PosInf

fun js_lt :: "jsnum \<Rightarrow> jsnum \<Rightarrow> bool" where
  "js_lt NaN _ = False"
| "js_lt _ NaN = False"
| "js_lt (Fin x) (Fin y) = (x < y)"
| "js_lt NegInf NegInf = False"
| "js_lt NegInf _ = True"
| "js_lt _ NegInf = False"
| "js_lt PosInf _ = False"
| "js_lt (Fin x) PosInf = True"

fun js_le :: "jsnum \<Rightarrow> jsnum \<Rightarrow> bool" where
  "js_le NaN _ = False"
| "js_le _ NaN = False"
| "js_le a b = (a = b \<or> js_lt a b)"

definition js_gt :: "jsnum \<Rightarrow> jsnum \<Rightarrow> bool" where
  "js_gt a b = js_lt b a"

definition js_ge :: "jsnum \<Rightarrow> jsnum \<Rightarrow> bool" where
  "js_ge a b = js_le b a"

fun js_add :: "jsnum \<Rightarrow> jsnum \<Rightarrow> jsnum" where
  "js_add NaN _ = NaN"
| "js_add _ NaN = NaN"
| "js_add (Fin x) (Fin y) = Fin (x + y)"
| "js_add PosInf NegInf = NaN"
| "js_add NegInf PosInf = NaN"
| "js_add PosInf _ = PosInf"
| "js_add NegInf _ = NegInf"
| "js_add (Fin x) b = b"

definition js_sgn_inf :: "bool \<Rightarrow> jsnum" where
  "js_sgn_inf positive = (if positive then PosInf else NegInf)"

fun js_mul :: "jsnum \<Rightarrow> jsnum \<Rightarrow> jsnum" where
  "js_mul NaN _ = NaN"
| "js_mul _ NaN = NaN"
| "js_mul (Fin x) (Fin y) = Fin (x * y)"
| "js_mul PosInf (Fin y) = (if y = 0 then NaN else js_sgn_inf (0 < y))"
| "js_mul NegInf (Fin y) = (if y = 0 then NaN else js_sgn_inf (y < 0))"
| "js_mul (Fin x) PosInf = (if x = 0 then NaN else js_sgn_inf (0 < x))"
| "js_mul (Fin x) NegInf = (if x = 0 then NaN else js_sgn_inf (x < 0))"
| "js_mul PosInf PosInf = PosInf"
| "js_mul NegInf NegInf = PosInf"
| "js_mul PosInf NegInf = NegInf"
| "js_mul NegInf PosInf = NegInf"

fun js_div :: "jsnum \<Rightarrow> jsnum \<Rightarrow> jsnum" where
  "js_div NaN _ = NaN"
| "js_div _ NaN = NaN"
| "js_div (Fin x) (Fin y) =
     (if y = 0 then (if x = 0 then NaN else js_sgn_inf (0 < x)) else Fin (x / y))"
| "js_div (Fin x) _ = Fin 0"
| "js_div PosInf (Fin y) = js_sgn_inf (0 \<le> y)"
| "js_div NegInf (Fin y) = js_sgn_inf (y < 0)"
| "js_div _ _ = NaN"

fun js_floor :: "jsnum \<Rightarrow> jsnum" where
  "js_floor (Fin x) = Fin (of_int \<lfloor>x\<rfloor>)"
| "js_floor a = a"

text \<open>\<^verbatim>\<open>Math.min\<close> and \<^verbatim>\<open>Math.max\<close>: \<^verbatim>\<open>NaN\<close> as soon as an argument is.\<close>

fun js_min :: "jsnum \<Rightarrow> jsnum \<Rightarrow> jsnum" where
  "js_min NaN _ = NaN"
| "js_min _ NaN = NaN"
| "js_min a b = (if js_lt b a then b else a)"

fun js_max :: "jsnum \<Rightarrow> jsnum \<Rightarrow> jsnum" where
  "js_max NaN _ = NaN"
| "js_max _ NaN = NaN"
| "js_max a b = (if js_lt a b then b else a)"

text \<open>Truthiness of an optional number: \<^verbatim>\<open>undefined\<close>, \<^verbatim>\<open>NaN\<close> and zero are falsy.\<close>

fun js_truthy :: "jsnum option \<Rightarrow> bool" where
  "js_truthy None = False"
| "js_truthy (Some NaN) = False"
| "js_truthy (Some (Fin x)) = (x \<noteq> 0)"
| "js_truthy (Some _) = True"

subsection \<open>Strings and boxes\<close>

text \<open>
  A JavaScript string is a sequence of UTF-16 code units; \<^verbatim>\<open>label.length\<close> counts them.
\<close>

type_synonym jsstring = "16 word list"

datatype box_type = birthday | event | week

datatype event_type = personal | world | president

text \<open>
  \<^verbatim>\<open>GridBox\<close>. The \<^verbatim>\<open>date\<close> string is kept as the calendar day it names (days since
  1970-01-01). The fields \<^verbatim>\<open>tooltip\<close>, \<^verbatim>\<open>borderClass\<close>, \<^verbatim>\<open>backgroundClass\<close> and
  \<^verbatim>\<open>age\<close> are display data that the walk, the colour pass and the packer never read;
  they are left out.
\<close>

record GridBox =
  type :: box_type
  label :: jsstring
  date :: int
  year :: int
  boxEventType :: "event_type option"

subsection \<open>Responsive constants\<close>

record ResponsiveConstants =
  containerWidth :: jsnum
  basePadding :: jsnum
  charWidth :: jsnum
  weekBoxMinWidth :: jsnum

datatype breakpoint = ultrawide | wide | desktop | tablet | mobile | extraSmall

definition mk_constants :: "rat \<Rightarrow> rat \<Rightarrow> rat \<Rightarrow> rat \<Rightarrow> ResponsiveConstants" where
  "mk_constants cw bp ch wb =
     \<lparr>containerWidth = Fin cw, basePadding = Fin bp, charWidth = Fin ch,
      weekBoxMinWidth = Fin wb\<rparr>"

text \<open>\<^verbatim>\<open>GRID_CONSTANTS\<close>: the first argument selects the \<^verbatim>\<open>compact\<close> sub-table.\<close>

fun GRID_CONSTANTS :: "bool \<Rightarrow> breakpoint \<Rightarrow> ResponsiveConstants" where
  "GRID_CONSTANTS False ultrawide = mk_constants 1440 8 8 20"
| "GRID_CONSTANTS False wide = mk_constants 1190 8 8 20"
| "GRID_CONSTANTS False desktop = mk_constants 668 7 8 20"
| "GRID_CONSTANTS False tablet = mk_constants 573 4 7 17"
| "GRID_CONSTANTS False mobile = mk_constants 737 3 6 15"
| "GRID_CONSTANTS False extraSmall = mk_constants 307 2 5 12"
| "GRID_CONSTANTS True ultrawide = mk_constants 1440 1 8 8"
| "GRID_CONSTANTS True wide = mk_constants 1190 1 8 8"
| "GRID_CONSTANTS True desktop = mk_constants 668 1 8 8"
| "GRID_CONSTANTS True tablet = mk_constants 573 1 7 6"
| "GRID_CONSTANTS True mobile = mk_constants 461 0 6 5"
| "GRID_CONSTANTS True extraSmall = mk_constants 307 0 5 4"

definition calculateDynamicConstants :: "jsnum \<Rightarrow> bool \<Rightarrow> ResponsiveConstants" where
  "calculateDynamicConstants cw compactMode =
     (let (ch, bp, wb) =
        (if compactMode then
           (if js_le cw (Fin 480) then (Fin 7, Fin 2, Fin 14)
            else if js_le cw (Fin 768) then (Fin 8, Fin 2, Fin 14)
            else (Fin 10, Fin 2, Fin 16))
         else
           (if js_lt cw (Fin 350) then Fin 5
            else if js_lt cw (Fin 500) then Fin 6
            else if js_lt cw (Fin 650) then Fin 7
            else Fin 8,
            js_max (Fin 2) (js_min (Fin 8) (js_floor (js_div cw (Fin 150)))),
            js_max (Fin 12) (js_min (Fin 20) (js_floor (js_div cw (Fin 50))))));
        safeContainerWidth = js_floor (js_mul cw (Fin (95 / 100)))
      in \<lparr>containerWidth = safeContainerWidth, basePadding = bp, charWidth = ch,
          weekBoxMinWidth = wb\<rparr>)"

text \<open>
  The breakpoint chosen from \<^verbatim>\<open>window.innerWidth\<close> in the static fallback.
\<close>

definition breakpoint_of :: "jsnum \<Rightarrow> breakpoint" where
  "breakpoint_of width =
     (if js_lt width (Fin 480) then extraSmall
      else if js_le width (Fin 768) then mobile
      else if js_lt width (Fin 1024) then tablet
      else if js_lt width (Fin 1400) then desktop
      else if js_lt width (Fin 1800) then wide
      else ultrawide)"

text \<open>
  The static fallback of \<^verbatim>\<open>getResponsiveConstants\<close>. The global \<^verbatim>\<open>window\<close> is a
  parameter: \<open>None\<close> when it is undefined (server-side rendering), otherwise its
  \<^verbatim>\<open>innerWidth\<close>.
\<close>

definition staticConstants :: "jsnum option \<Rightarrow> bool \<Rightarrow> ResponsiveConstants" where
  "staticConstants window compactMode =
     (case window of
        None \<Rightarrow> GRID_CONSTANTS compactMode desktop
      | Some width \<Rightarrow> GRID_CONSTANTS compactMode (breakpoint_of width))"

definition getResponsiveConstants ::
  "jsnum option \<Rightarrow> bool \<Rightarrow> jsnum option \<Rightarrow> ResponsiveConstants" where
  "getResponsiveConstants window compactMode measuredWidth =
     (case measuredWidth of
        Some w \<Rightarrow>
          (if js_truthy measuredWidth \<and> js_gt w (Fin 0)
           then calculateDynamicConstants w compactMode
           else staticConstants window compactMode)
      | None \<Rightarrow> staticConstants window compactMode)"

definition calculateWeekCellWidth :: "jsnum option \<Rightarrow> bool \<Rightarrow> jsnum" where
  "calculateWeekCellWidth window compactMode =
     (let borderWidth = Fin 2; gapWidth = Fin 1 in
      if compactMode then js_add (js_add (js_add (Fin 4) (Fin 2)) borderWidth) gapWidth
      else
        (let viewportWidth = (case window of None \<Rightarrow> Fin 1200 | Some w \<Rightarrow> w)
         in if js_le viewportWidth (Fin 768) then Fin 18 else Fin 26))"

definition calculateBoxWidth ::
  "jsnum option \<Rightarrow> jsstring \<Rightarrow> bool \<Rightarrow> jsnum option \<Rightarrow> jsnum" where
  "calculateBoxWidth window lbl compactMode measuredWidth =
     (let constants = getResponsiveConstants window compactMode measuredWidth;
          labelLength = Fin (of_nat (length lbl));
          textWidth = js_mul labelLength (charWidth constants);
          totalPadding = js_mul (basePadding constants) (Fin 2);
          borderWidth = Fin 2;
          gapWidth = Fin 1
      in js_add (js_add (js_add textWidth totalPadding) borderWidth) gapWidth)"

text \<open>An empty label is falsy, so the break test sizes it as an empty week cell.\<close>

definition shouldBreakBeforeBox ::
  "jsnum option \<Rightarrow> jsnum \<Rightarrow> jsstring \<Rightarrow> bool \<Rightarrow> jsnum option \<Rightarrow> bool" where
  "shouldBreakBeforeBox window currentRowWidth nextBoxLabel compactMode measuredWidth =
     (let constants = getResponsiveConstants window compactMode measuredWidth;
          nextBoxWidth =
            (if nextBoxLabel \<noteq> []
             then calculateBoxWidth window nextBoxLabel compactMode measuredWidth
             else calculateWeekCellWidth window compactMode);
          totalAfterAdd = js_add currentRowWidth nextBoxWidth
      in js_ge totalAfterAdd (containerWidth constants))"

subsection \<open>Greedy row packing\<close>

record pack_state =
  rows :: "GridBox list list"
  currentRow :: "GridBox list"
  currentRowWidth :: jsnum

definition boxWidth :: "jsnum option \<Rightarrow> bool \<Rightarrow> jsnum option \<Rightarrow> GridBox \<Rightarrow> jsnum" where
  "boxWidth window compactMode measuredWidth box =
     (if type box = week then calculateWeekCellWidth window compactMode
      else calculateBoxWidth window (label box) compactMode measuredWidth)"

text \<open>One iteration of the loop of \<^verbatim>\<open>processBoxesIntoRows\<close>.\<close>

definition pack_step ::
  "jsnum option \<Rightarrow> bool \<Rightarrow> jsnum option \<Rightarrow> GridBox \<Rightarrow> pack_state \<Rightarrow> pack_state" where
  "pack_step window compactMode measuredWidth box s =
     (let w = boxWidth window compactMode measuredWidth box;
          shouldBreakWidth =
            shouldBreakBeforeBox window (currentRowWidth s) (label box) compactMode measuredWidth;
          s1 = (if shouldBreakWidth \<and> length (currentRow s) > 0
                then \<lparr>rows = rows s @ [currentRow s], currentRow = [], currentRowWidth = Fin 0\<rparr>
                else s)
      in s1\<lparr>currentRow := currentRow s1 @ [box],
            currentRowWidth := js_add (currentRowWidth s1) w\<rparr>)"

definition pack_init :: pack_state where
  "pack_init = \<lparr>rows = [], currentRow = [], currentRowWidth = Fin 0\<rparr>"

definition pack_finish :: "pack_state \<Rightarrow> GridBox list list" where
  "pack_finish s = (if length (currentRow s) > 0 then rows s @ [currentRow s] else rows s)"

definition processBoxesIntoRows ::
  "jsnum option \<Rightarrow> GridBox list \<Rightarrow> bool \<Rightarrow> jsnum option \<Rightarrow> GridBox list list" where
  "processBoxesIntoRows window boxes compactMode measuredWidth =
     pack_finish (fold (pack_step window compactMode measuredWidth) boxes pack_init)"

text \<open>The pixel width of a finished row: the widths the loop added up for its boxes.\<close>

definition rowWidth :: "jsnum option \<Rightarrow> bool \<Rightarrow> jsnum option \<Rightarrow> GridBox list \<Rightarrow> jsnum" where
  "rowWidth window compactMode measuredWidth row =
     fold (\<lambda>b acc. js_add acc (boxWidth window compactMode measuredWidth b)) row (Fin 0)"


subsection \<open>Emoji extraction\<close>

text \<open>
  \<^verbatim>\<open>extractFirstEmoji\<close> runs a regular expression with the \<^verbatim>\<open>u\<close> flag: the string is
  read code point by code point (a high surrogate followed by a low surrogate is one code
  point), the search starts at index 0 and moves on by one code point after a failed
  attempt, and at each position the alternatives are tried from left to right.
\<close>

definition is_high_surrogate :: "16 word \<Rightarrow> bool" where
  "is_high_surrogate u = (0xD800 \<le> u \<and> u \<le> 0xDBFF)"

definition is_low_surrogate :: "16 word \<Rightarrow> bool" where
  "is_low_surrogate u = (0xDC00 \<le> u \<and> u \<le> 0xDFFF)"

text \<open>The code point at the head of a string, with the number of code units it takes.\<close>

fun first_cp :: "jsstring \<Rightarrow> (nat \<times> nat) option" where
  "first_cp [] = None"
| "first_cp [u] = Some (unat u, 1)"
| "first_cp (u # v # r) =
     (if is_high_surrogate u \<and> is_low_surrogate v
      then Some (0x10000 + (unat u - 0xD800) * 0x400 + (unat v - 0xDC00), 2)
      else Some (unat u, 1))"

definition in_range :: "nat \<Rightarrow> nat \<Rightarrow> nat \<Rightarrow> bool" where
  "in_range lo hi cp = (lo \<le> cp \<and> cp \<le> hi)"

definition regional_indicator :: "nat \<Rightarrow> bool" where
  "regional_indicator cp = in_range 0x1F1E0 0x1F1FF cp"

text \<open>
  The number of code units the pattern matches at the head of the string, if it matches
  there. The fourth alternative asks for two regional indicators in a row.
\<close>

definition emoji_match_at :: "jsstring \<Rightarrow> nat option" where
  "emoji_match_at s =
     (case first_cp s of
        None \<Rightarrow> None
      | Some (cp, n) \<Rightarrow>
          if in_range 0x1F600 0x1F64F cp \<or> in_range 0x1F300 0x1F5FF cp
             \<or> in_range 0x1F680 0x1F6FF cp
          then Some n
          else
            (case (if regional_indicator cp then first_cp (drop n s) else None) of
               Some (cp2, n2) \<Rightarrow>
                 if regional_indicator cp2 then Some (n + n2)
                 else if in_range 0x1F018 0x1F270 cp then Some n else None
             | None \<Rightarrow>
                 if in_range 0x2600 0x26FF cp \<or> in_range 0x2700 0x27BF cp
                    \<or> in_range 0x1F900 0x1F9FF cp \<or> in_range 0x1F018 0x1F270 cp
                    \<or> in_range 0x1F000 0x1F02F cp \<or> in_range 0x1F0A0 0x1F0FF cp
                 then Some n else None))"

text \<open>The first match: its index (in code units) and the matched text.\<close>

fun emoji_search :: "nat \<Rightarrow> jsstring \<Rightarrow> (nat \<times> jsstring) option" where
  "emoji_search i [] = None"
| "emoji_search i (u # r) =
     (case emoji_match_at (u # r) of
        Some n \<Rightarrow> Some (i, take n (u # r))
      | None \<Rightarrow>
          (if (case r of [] \<Rightarrow> False | v # _ \<Rightarrow> is_high_surrogate u \<and> is_low_surrogate v)
           then emoji_search (i + 2) (tl r)
           else emoji_search (i + 1) r))"

definition extractFirstEmoji :: "jsstring \<Rightarrow> jsstring option" where
  "extractFirstEmoji text =
     (case emoji_search 0 text of
        None \<Rightarrow> None
      | Some (index, m) \<Rightarrow>
          if length m = 1 then
            (let nextChar = take 1 (drop (index + 1) text) in
             if nextChar \<noteq> [] \<and>
                (case first_cp nextChar of Some (cp, _) \<Rightarrow> regional_indicator cp | None \<Rightarrow> False)
             then Some (m @ nextChar) else Some m)
          else Some m)"

definition createCompactEventLabel :: "jsstring \<Rightarrow> jsstring" where
  "createCompactEventLabel headline =
     (case extractFirstEmoji headline of Some emoji \<Rightarrow> emoji | None \<Rightarrow> [])"

definition shouldShowInCompact :: "jsstring \<Rightarrow> bool" where
  "shouldShowInCompact headline = (extractFirstEmoji headline \<noteq> None)"

subsection \<open>Birthday labels\<close>

definition ascii :: "string \<Rightarrow> jsstring" where
  "ascii s = map (\<lambda>c. of_nat (of_char c)) s"

fun show_nat :: "nat \<Rightarrow> jsstring" where
  "show_nat n =
     (if n < 10 then [of_nat (48 + n)] else show_nat (n div 10) @ [of_nat (48 + n mod 10)])"

declare show_nat.simps [simp del]

definition show_int :: "int \<Rightarrow> jsstring" where
  "show_int i = (if i < 0 then ascii ''-'' @ show_nat (nat (- i)) else show_nat (nat i))"

text \<open>The birthday cake is U+1F382, two code units.\<close>

definition createBirthdayLabel :: "int \<Rightarrow> int \<Rightarrow> bool \<Rightarrow> jsstring" where
  "createBirthdayLabel age yr compactMode =
     (if compactMode then [0xD83C, 0xDF82] @ show_int age
      else [0xD83C, 0xDF82] @ ascii '' '' @ show_int age @ ascii '' in '' @ show_int yr)"

subsection \<open>Calendar days\<close>

text \<open>
  A \<^verbatim>\<open>Date\<close> at local midnight is kept as its day number, the days since 1970-01-01 in
  the proleptic Gregorian calendar. \<^verbatim>\<open>new Date(year, month, day)\<close> takes a zero-based
  month and carries a month or a day out of range over into the next ones, as the
  constructor does (29 February of a common year is 1 March). The constructor reads a
  year from 0 to 99 as the year 1900 later; every other year is read as it is written.
\<close>

definition is_leap :: "int \<Rightarrow> bool" where
  "is_leap y = (y mod 4 = 0 \<and> (y mod 100 \<noteq> 0 \<or> y mod 400 = 0))"

text \<open>Days from 0001-01-01 to 1 January of the year.\<close>

definition days_before_year :: "int \<Rightarrow> int" where
  "days_before_year y = 365 * (y - 1) + (y - 1) div 4 - (y - 1) div 100 + (y - 1) div 400"

definition month_starts :: "int list" where
  "month_starts = [0, 31, 59, 90, 120, 151, 181, 212, 243, 273, 304, 334]"

text \<open>Days from 1 January to the first of the month (zero-based, 0 to 11).\<close>

definition days_before_month :: "int \<Rightarrow> int \<Rightarrow> int" where
  "days_before_month y m = month_starts ! nat m + (if 2 \<le> m \<and> is_leap y then 1 else 0)"

text \<open>The day number of the day \<^verbatim>\<open>d\<close> of the month \<^verbatim>\<open>m\<close> of the year \<^verbatim>\<open>y\<close>, with the carries.\<close>

definition MakeDay :: "int \<Rightarrow> int \<Rightarrow> int \<Rightarrow> int" where
  "MakeDay y m d =
     (let ym = y + m div 12; mn = m mod 12
      in days_before_year ym + days_before_month ym mn + (d - 1) - 719162)"

definition newDate :: "int \<Rightarrow> int \<Rightarrow> int \<Rightarrow> int" where
  "newDate y m d = MakeDay (if 0 \<le> y \<and> y \<le> 99 then 1900 + y else y) m d"

definition getFullYear :: "int \<Rightarrow> int" where
  "getFullYear n =
     (let k = n + 719162; g = (400 * k) div 146097 + 1 in
      if k < days_before_year g then g - 1
      else if days_before_year (g + 1) \<le> k then g + 1
      else g)"

text \<open>The day of the year, counted from 0.\<close>

definition day_of_year :: "int \<Rightarrow> int" where
  "day_of_year n = n + 719162 - days_before_year (getFullYear n)"

definition getMonth :: "int \<Rightarrow> int" where
  "getMonth n =
     (case filter (\<lambda>m. days_before_month (getFullYear n) m \<le> day_of_year n)
             [11, 10, 9, 8, 7, 6, 5, 4, 3, 2, 1] of
        [] \<Rightarrow> 0
      | m # _ \<Rightarrow> m)"

definition getDate :: "int \<Rightarrow> int" where
  "getDate n = day_of_year n - days_before_month (getFullYear n) (getMonth n) + 1"

text \<open>\<^verbatim>\<open>getDay\<close>: 0 is Sunday; 1970-01-01 was a Thursday.\<close>

definition getDay :: "int \<Rightarrow> int" where
  "getDay n = (n + 4) mod 7"

text \<open>
  Modelled from the spec: \<^verbatim>\<open>getWeekStartSunday\<close> of \<^verbatim>\<open>utils/date-processing\<close> is not
  among the sources; it is ``the Sunday-aligned start of the week containing'' the date.
  \<^verbatim>\<open>formatDateString\<close> of the same module renders a day as its ISO string; the model
  keeps the day itself wherever the code holds that string.
\<close>

definition getWeekStartSunday :: "int \<Rightarrow> int" where
  "getWeekStartSunday n = n - getDay n"

subsection \<open>Events\<close>

text \<open>
  An event of a source table, and the same event tagged with its source. The remaining
  optional fields (category, party, and so on) are passed through to the tooltip only.
  \<^verbatim>\<open>milestone\<close> and \<^verbatim>\<open>color\<close> are optional; the code tests their truthiness.
\<close>

record SourceEvent =
  headline :: jsstring
  description :: "jsstring option"
  milestone :: "bool option"
  color :: "jsstring option"

record MergedEvent = SourceEvent +
  eventType :: event_type

type_synonym EventsData = "int \<rightharpoonup> SourceEvent list"

type_synonym MergedEvents = "int \<rightharpoonup> MergedEvent list"

definition tag_event :: "event_type \<Rightarrow> SourceEvent \<Rightarrow> MergedEvent" where
  "tag_event t e =
     \<lparr>headline = headline e, description = description e, milestone = milestone e,
      color = color e, eventType = t\<rparr>"

definition add_source :: "event_type \<Rightarrow> EventsData \<Rightarrow> MergedEvents \<Rightarrow> MergedEvents" where
  "add_source t src merged =
     (\<lambda>d. case src d of
            None \<Rightarrow> merged d
          | Some events \<Rightarrow>
              Some ((case merged d of None \<Rightarrow> [] | Some es \<Rightarrow> es) @ map (tag_event t) events))"

text \<open>
  \<^verbatim>\<open>getMergedEvents\<close>; the two \<^verbatim>\<open>APP_CONFIG\<close> switches and the world and president
  tables are parameters.
\<close>

definition getMergedEvents ::
  "bool \<Rightarrow> bool \<Rightarrow> EventsData \<Rightarrow> EventsData \<Rightarrow> EventsData \<Rightarrow> MergedEvents" where
  "getMergedEvents defaultShowWorldEvents defaultShowPresidents lifeEvents worldEvents usPresidents =
     (let merged = (\<lambda>d. map_option (map (tag_event personal)) (lifeEvents d));
          merged = (if defaultShowWorldEvents then add_source world worldEvents merged else merged);
          merged = (if defaultShowPresidents then add_source president usPresidents merged
                    else merged)
      in merged)"

definition is_milestone :: "MergedEvent \<Rightarrow> bool" where
  "is_milestone e = (eventType e = personal \<and> milestone e = Some True)"

subsection \<open>The calendar walk\<close>

text \<open>
  \<^verbatim>\<open>WeeksConfig\<close>: \<open>startDate\<close> is the local day of \<^verbatim>\<open>new Date(weeksConfig.startDate)\<close>.
\<close>

record WeeksConfig =
  startDate :: int
  startYear :: int
  endYear :: int

record walk_state =
  milestoneWeeks :: "int set"
  allBoxes :: "GridBox list"

definition anniversary :: "WeeksConfig \<Rightarrow> int \<Rightarrow> int" where
  "anniversary cfg yr = newDate yr (getMonth (startDate cfg)) (getDate (startDate cfg))"

definition weekDate :: "WeeksConfig \<Rightarrow> int \<Rightarrow> int \<Rightarrow> int" where
  "weekDate cfg yr wk =
     (let age = yr - startYear cfg in
      if age = 0 then
        (if wk = 0 then getWeekStartSunday (startDate cfg)
         else getWeekStartSunday (startDate cfg) + wk * 7)
      else getWeekStartSunday (anniversary cfg yr + wk * 7))"

text \<open>
  The scan over the seven days of a week: it stops at a day on or after the next birthday,
  and at the first day with a non-empty event list, which it returns with its events.
\<close>

fun scan_days ::
  "MergedEvents \<Rightarrow> int \<Rightarrow> int \<Rightarrow> int list \<Rightarrow> (int \<times> MergedEvent list) option" where
  "scan_days mergedEvents wd nextBirthday [] = None"
| "scan_days mergedEvents wd nextBirthday (day # days) =
     (let dayDate = wd + day in
      if dayDate \<ge> nextBirthday then None
      else
        (case mergedEvents dayDate of
           Some eventsForDay \<Rightarrow>
             if length eventsForDay > 0 then Some (dayDate, eventsForDay)
             else scan_days mergedEvents wd nextBirthday days
         | None \<Rightarrow> scan_days mergedEvents wd nextBirthday days))"

text \<open>The primary event of a non-empty list: the first milestone, else the first event.\<close>

definition primaryEvent :: "MergedEvent list \<Rightarrow> MergedEvent" where
  "primaryEvent es = (case find is_milestone es of Some e \<Rightarrow> e | None \<Rightarrow> hd es)"

definition weekBox :: "int \<Rightarrow> int \<Rightarrow> GridBox" where
  "weekBox wd yr = \<lparr>type = week, label = [], date = wd, year = yr, boxEventType = None\<rparr>"

definition eventBox :: "bool \<Rightarrow> MergedEvent \<Rightarrow> int \<Rightarrow> int \<Rightarrow> GridBox" where
  "eventBox isCompactMode primary wd yr =
     \<lparr>type = event,
      label = (if isCompactMode then createCompactEventLabel (headline primary)
               else headline primary),
      date = wd, year = yr, boxEventType = Some (eventType primary)\<rparr>"

text \<open>
  The body of the week loop, in three parts. After the scan, \<^verbatim>\<open>eventsForWeek\<close> holds the
  events of the day the scan stopped at, or else what the mapping has at the week's start.
\<close>

definition eventsForWeek :: "MergedEvents \<Rightarrow> int \<Rightarrow> int \<Rightarrow> MergedEvent list option" where
  "eventsForWeek mergedEvents wd nextBirthday =
     (case scan_days mergedEvents wd nextBirthday [0, 1, 2, 3, 4, 5, 6] of
        Some (_, eventsForDay) \<Rightarrow> Some eventsForDay
      | None \<Rightarrow> mergedEvents wd)"

text \<open>Whether the scan adds the week's start date to \<^verbatim>\<open>milestoneWeeks\<close>.\<close>

definition week_has_milestone :: "MergedEvents \<Rightarrow> int \<Rightarrow> int \<Rightarrow> bool" where
  "week_has_milestone mergedEvents wd nextBirthday =
     (case scan_days mergedEvents wd nextBirthday [0, 1, 2, 3, 4, 5, 6] of
        Some (_, eventsForDay) \<Rightarrow> length (filter is_milestone eventsForDay) > 0
      | None \<Rightarrow> False)"

text \<open>
  The box pushed for the week. The day found by the scan (\<^verbatim>\<open>actualEventDate\<close>) goes
  into the tooltip only; the box is dated at the week's start.
\<close>

definition box_for_week :: "bool \<Rightarrow> MergedEvents \<Rightarrow> int \<Rightarrow> int \<Rightarrow> int \<Rightarrow> GridBox" where
  "box_for_week isCompactMode mergedEvents wd nextBirthday yr =
     (case eventsForWeek mergedEvents wd nextBirthday of
        Some es \<Rightarrow>
          if length es > 0 then
            (let primary = primaryEvent es in
             if isCompactMode \<and> \<not> shouldShowInCompact (headline primary)
             then weekBox wd yr
             else eventBox isCompactMode primary wd yr)
          else weekBox wd yr
      | None \<Rightarrow> weekBox wd yr)"

text \<open>One pass through the body of the week loop.\<close>

definition week_body ::
  "WeeksConfig \<Rightarrow> bool \<Rightarrow> MergedEvents \<Rightarrow> int \<Rightarrow> int \<Rightarrow> walk_state \<Rightarrow> walk_state" where
  "week_body cfg isCompactMode mergedEvents yr wk st =
     (let wd = weekDate cfg yr wk;
          nextBirthday = anniversary cfg (yr + 1)
      in
      if wd \<ge> nextBirthday then st
      else
        \<lparr>milestoneWeeks =
           (if week_has_milestone mergedEvents wd nextBirthday
            then insert wd (milestoneWeeks st) else milestoneWeeks st),
         allBoxes = allBoxes st @ [box_for_week isCompactMode mergedEvents wd nextBirthday yr]\<rparr>)"

definition birthdayBox :: "WeeksConfig \<Rightarrow> bool \<Rightarrow> int \<Rightarrow> GridBox" where
  "birthdayBox cfg isCompactMode yr =
     \<lparr>type = birthday,
      label = createBirthdayLabel (yr - startYear cfg) yr isCompactMode,
      date = anniversary cfg yr, year = yr, boxEventType = None\<rparr>"

text \<open>One pass through the body of the year loop.\<close>

definition year_body ::
  "WeeksConfig \<Rightarrow> bool \<Rightarrow> MergedEvents \<Rightarrow> int \<Rightarrow> walk_state \<Rightarrow> walk_state" where
  "year_body cfg isCompactMode mergedEvents yr st =
     (let age = yr - startYear cfg;
          st1 = (if age > 0
                 then st\<lparr>allBoxes := allBoxes st @ [birthdayBox cfg isCompactMode yr]\<rparr>
                 else st);
          startWeek = (if age = 0 then 0 else 1)
      in fold (week_body cfg isCompactMode mergedEvents yr) [startWeek..52] st1)"

definition walk :: "WeeksConfig \<Rightarrow> bool \<Rightarrow> MergedEvents \<Rightarrow> walk_state" where
  "walk cfg isCompactMode mergedEvents =
     fold (year_body cfg isCompactMode mergedEvents) [startYear cfg..endYear cfg]
       \<lparr>milestoneWeeks = {}, allBoxes = []\<rparr>"

subsection \<open>The milestone colour pass\<close>

definition has_milestone :: "MergedEvents \<Rightarrow> int \<Rightarrow> bool" where
  "has_milestone mergedEvents d =
     (case mergedEvents d of Some es \<Rightarrow> list_ex is_milestone es | None \<Rightarrow> False)"

text \<open>
  The milestone set the colour walk tests: what the calendar walk recorded, every date of
  the merged mapping that bears a milestone, and the date of every event box whose own
  date bears one.
\<close>

definition collectMilestoneWeeks :: "MergedEvents \<Rightarrow> walk_state \<Rightarrow> int set" where
  "collectMilestoneWeeks mergedEvents st =
     fold (\<lambda>box mw. if type box = event \<and> has_milestone mergedEvents (date box)
                     then insert (date box) mw else mw)
       (allBoxes st)
       (milestoneWeeks st \<union> {d. has_milestone mergedEvents d})"

text \<open>Reading a list by index gives \<^verbatim>\<open>undefined\<close> (\<open>None\<close>) past its end.\<close>

definition js_nth :: "'a list \<Rightarrow> nat \<Rightarrow> 'a option" where
  "js_nth xs i = (if i < length xs then Some (xs ! i) else None)"

record color_state =
  colorIndex :: nat
  currentBoxColor :: "jsstring option"
  boxColorMap :: "int \<rightharpoonup> jsstring option"

definition color_init :: "jsstring list \<Rightarrow> color_state" where
  "color_init milestoneColors =
     \<lparr>colorIndex = 0, currentBoxColor = js_nth milestoneColors 0, boxColorMap = Map.empty\<rparr>"

text \<open>An event overrides the colour when it is personal, a milestone, and has a colour.\<close>

definition overrides :: "MergedEvent \<Rightarrow> bool" where
  "overrides e =
     (is_milestone e \<and> (case color e of Some c \<Rightarrow> c \<noteq> [] | None \<Rightarrow> False))"

definition apply_overrides :: "MergedEvent list \<Rightarrow> jsstring option \<Rightarrow> jsstring option" where
  "apply_overrides es c = fold (\<lambda>e c. if overrides e then color e else c) es c"

text \<open>One pass through the body of the colour loop.\<close>

definition color_step ::
  "jsstring list \<Rightarrow> MergedEvents \<Rightarrow> int set \<Rightarrow> GridBox \<Rightarrow> color_state \<Rightarrow> color_state" where
  "color_step milestoneColors mergedEvents mws box st =
     (let st1 = (if date box \<in> mws then
                   (let i = colorIndex st + 1 in
                    \<lparr>colorIndex = i,
                     currentBoxColor = (if i < length milestoneColors
                                        then js_nth milestoneColors i
                                        else currentBoxColor st),
                     boxColorMap = boxColorMap st\<rparr>)
                 else st);
          c = (case mergedEvents (date box) of
                 Some eventsForBox \<Rightarrow> apply_overrides eventsForBox (currentBoxColor st1)
               | None \<Rightarrow> currentBoxColor st1)
      in \<lparr>colorIndex = colorIndex st1, currentBoxColor = c,
          boxColorMap = (boxColorMap st1)(date box \<mapsto> c)\<rparr>)"

text \<open>The boxes in the order the colour loop visits them: a stable sort by date.\<close>

definition sortedBoxes :: "GridBox list \<Rightarrow> GridBox list" where
  "sortedBoxes boxes = sort_key date boxes"

definition assignColors ::
  "jsstring list \<Rightarrow> MergedEvents \<Rightarrow> walk_state \<Rightarrow> color_state" where
  "assignColors milestoneColors mergedEvents st =
     fold (color_step milestoneColors mergedEvents (collectMilestoneWeeks mergedEvents st))
       (sortedBoxes (allBoxes st)) (color_init milestoneColors)"

subsection \<open>The component\<close>

text \<open>
  What \<^verbatim>\<open>WeeksGrid\<close> computes before it renders: the boxes, the colour of each date and
  the rows. The palette (\<^verbatim>\<open>generateMilestoneColors\<close>), the merged events, the viewport
  and the measured container width (0 until a measurement exists) are parameters.
\<close>

definition WeeksGrid ::
  "jsnum option \<Rightarrow> bool \<Rightarrow> WeeksConfig \<Rightarrow> jsstring list \<Rightarrow> MergedEvents \<Rightarrow> jsnum \<Rightarrow>
   GridBox list \<times> (int \<rightharpoonup> jsstring option) \<times> GridBox list list" where
  "WeeksGrid window isCompactMode weeksConfig milestoneColors mergedEvents cw =
     (let st = walk weeksConfig isCompactMode mergedEvents;
          colors = assignColors milestoneColors mergedEvents st;
          allRows = processBoxesIntoRows window (allBoxes st) isCompactMode
                      (if js_gt cw (Fin 0) then Some cw else None)
      in (allBoxes st, boxColorMap colors, allRows))"

subsection \<open>Notions used in the statements\<close>

text \<open>No event at the date overrides the colour.\<close>

definition no_override :: "MergedEvents \<Rightarrow> int \<Rightarrow> bool" where
  "no_override mergedEvents d =
     (case mergedEvents d of Some es \<Rightarrow> filter overrides es = [] | None \<Rightarrow> True)"

text \<open>The current colour is the palette entry at the index, or the last one past the end.\<close>

definition on_palette :: "jsstring list \<Rightarrow> color_state \<Rightarrow> bool" where
  "on_palette P st = (currentBoxColor st = Some (P ! min (colorIndex st) (length P - 1)))"

text \<open>
  A box is label-consistent when it is a week box exactly if its label is empty: the two
  width computations of the packer then agree on it. A row fits when it is a single box or
  its width is strictly below the effective container width.
\<close>

definition label_consistent :: "GridBox \<Rightarrow> bool" where
  "label_consistent b = ((type b = week) = (label b = []))"

definition row_fits :: "jsnum option \<Rightarrow> bool \<Rightarrow> jsnum option \<Rightarrow> GridBox list \<Rightarrow> bool" where
  "row_fits window compactMode measuredWidth row =
     (length row = 1 \<or>
      js_lt (rowWidth window compactMode measuredWidth row)
        (containerWidth (getResponsiveConstants window compactMode measuredWidth)))"

text \<open>The invariant of the packing loop.\<close>

definition pack_inv :: "jsnum option \<Rightarrow> bool \<Rightarrow> jsnum option \<Rightarrow> pack_state \<Rightarrow> bool" where
  "pack_inv window compactMode measuredWidth s =
     ((case currentRowWidth s of Fin x \<Rightarrow> True | _ \<Rightarrow> False) \<and>
      currentRowWidth s = rowWidth window compactMode measuredWidth (currentRow s) \<and>
      list_all (row_fits window compactMode measuredWidth) (rows s) \<and>
      (currentRow s = [] \<or> row_fits window compactMode measuredWidth (currentRow s)))"

text \<open>The boxes one pass through the year loop pushes.\<close>

definition year_boxes :: "WeeksConfig \<Rightarrow> bool \<Rightarrow> MergedEvents \<Rightarrow> int \<Rightarrow> GridBox list" where
  "year_boxes cfg isCompactMode mergedEvents yr =
     allBoxes (year_body cfg isCompactMode mergedEvents yr \<lparr>milestoneWeeks = {}, allBoxes = []\<rparr>)"

text \<open>Sample inputs: a palette, an event, and a life that starts on 2000-01-15.\<close>

definition mk_event ::
  "event_type \<Rightarrow> bool option \<Rightarrow> jsstring option \<Rightarrow> jsstring \<Rightarrow> MergedEvent" where
  "mk_event t m c h =
     \<lparr>headline = h, description = None, milestone = m, color = c, eventType = t\<rparr>"

definition palette0 :: "jsstring list" where
  "palette0 = [ascii ''A'', ascii ''B'', ascii ''C'']"

definition cfg2000 :: WeeksConfig where
  "cfg2000 = \<lparr>startDate = 10971, startYear = 2000, endYear = 2000\<rparr>"

definition cfg2001 :: WeeksConfig where
  "cfg2001 = \<lparr>startDate = 10971, startYear = 2000, endYear = 2001\<rparr>"



text \<open>A milestone on Wednesday 2000-01-19, in the week that starts on Sunday 2000-01-16.\<close>

definition wednesday_milestone :: MergedEvents where
  "wednesday_milestone = [10975 \<mapsto> [mk_event personal (Some True) None (ascii ''Moved'')]]"

text \<open>The same milestone, after a world event on Monday 2000-01-17 of that week.\<close>

definition masked_events :: MergedEvents where
  "masked_events =
     [10973 \<mapsto> [mk_event world None None (ascii ''Summit'')],
      10975 \<mapsto> [mk_event personal (Some True) None (ascii ''Moved'')]]"

text \<open>A milestone on that Wednesday whose headline has a rocket (U+1F680) at its end.\<close>

definition trailing_emoji :: MergedEvents where
  "trailing_emoji =
     [10975 \<mapsto> [mk_event personal (Some True) None (ascii ''Launch '' @ [0xD83D, 0xDE80])]]"

text \<open>Coloured events that are not personal milestones, on Sunday 2000-01-16.\<close>

definition coloured_world_event :: MergedEvents where
  "coloured_world_event =
     [10972 \<mapsto> [mk_event world None (Some (ascii ''red'')) (ascii ''Summit''),
                 mk_event personal None (Some (ascii ''blue'')) (ascii ''Trip'')]]"

text \<open>A milestone on Sunday 2000-01-16, without and with a colour of its own.\<close>

definition sunday_milestone :: MergedEvents where
  "sunday_milestone = [10972 \<mapsto> [mk_event personal (Some True) None (ascii ''Moved'')]]"

definition coloured_milestone :: MergedEvents where
  "coloured_milestone =
     [10972 \<mapsto> [mk_event personal (Some True) (Some (ascii ''red'')) (ascii ''Moved'')]]"

text \<open>A milestone on that Wednesday whose headline has no emoji.\<close>

definition plain_milestone :: MergedEvents where
  "plain_milestone =
     [10975 \<mapsto> [mk_event personal (Some True) None (ascii ''Started job'')]]"

text \<open>An event without a headline on Sunday 2000-07-02, the start of the week 25.\<close>

definition blank_headline :: MergedEvents where
  "blank_headline = [11140 \<mapsto> [mk_event personal None None []]]"

text \<open>
  The code points of a string, and those in a range of the pattern of
  \<^verbatim>\<open>extractFirstEmoji\<close>. Two regional indicators in a row, the pattern's fourth
  alternative, add nothing: each of them is in the range from U+1F018 to U+1F270. A
  headline has an emoji of the pattern when one of its code points is in a range:
  U+2600 to U+27BF, U+1F000 to U+1F270, U+1F300 to U+1F64F, U+1F680 to U+1F6FF or
  U+1F900 to U+1F9FF.
\<close>

fun code_points :: "jsstring \<Rightarrow> nat list" where
  "code_points [] = []"
| "code_points [u] = [unat u]"
| "code_points (u # v # r) =
     (if is_high_surrogate u \<and> is_low_surrogate v
      then (0x10000 + (unat u - 0xD800) * 0x400 + (unat v - 0xDC00)) # code_points r
      else unat u # code_points (v # r))"

definition emoji_code_point :: "nat \<Rightarrow> bool" where
  "emoji_code_point cp =
     (in_range 0x1F600 0x1F64F cp \<or> in_range 0x1F300 0x1F5FF cp \<or> in_range 0x1F680 0x1F6FF cp
      \<or> in_range 0x2600 0x26FF cp \<or> in_range 0x2700 0x27BF cp \<or> in_range 0x1F900 0x1F9FF cp
      \<or> in_range 0x1F018 0x1F270 cp \<or> in_range 0x1F000 0x1F02F cp \<or> in_range 0x1F0A0 0x1F0FF cp)"

definition has_emoji :: "jsstring \<Rightarrow> bool" where
  "has_emoji s = list_ex emoji_code_point (code_points s)"

text \<open>The weeks of a list whose pass through the week loop adds to \<^verbatim>\<open>milestoneWeeks\<close>.\<close>

definition recorded_weeks :: "WeeksConfig \<Rightarrow> MergedEvents \<Rightarrow> int \<Rightarrow> int list \<Rightarrow> int list" where
  "recorded_weeks cfg mergedEvents yr ws =
     map (weekDate cfg yr)
       (filter (\<lambda>wk. weekDate cfg yr wk < anniversary cfg (yr + 1) \<and>
                      week_has_milestone mergedEvents (weekDate cfg yr wk)
                        (anniversary cfg (yr + 1))) ws)"

section \<open>Row packing: every box exactly once\<close>

lemma pack_step_concat:
  "concat (rows (pack_step wn c m b s)) @ currentRow (pack_step wn c m b s) =
   concat (rows s) @ currentRow s @ [b]"
  by (simp add: pack_step_def Let_def)

lemma pack_fold_concat:
  "concat (rows (fold (pack_step wn c m) bs s)) @ currentRow (fold (pack_step wn c m) bs s) =
   concat (rows s) @ currentRow s @ bs"
proof (induction bs arbitrary: s)
  case Nil
  show ?case by simp
next
  case (Cons b bs)
  have "concat (rows (fold (pack_step wn c m) (b # bs) s)) @
          currentRow (fold (pack_step wn c m) (b # bs) s) =
        concat (rows (pack_step wn c m b s)) @ currentRow (pack_step wn c m b s) @ bs"
    using Cons.IH [of "pack_step wn c m b s"] by simp
  also have "\<dots> = (concat (rows s) @ currentRow s @ [b]) @ bs"
    using pack_step_concat [of wn c m b s] by (metis append.assoc)
  finally show ?case by simp
qed

lemma pack_step_rows_nonempty:
  "[] \<notin> set (rows s) \<Longrightarrow> [] \<notin> set (rows (pack_step wn c m b s))"
  by (auto simp: pack_step_def Let_def)

lemma pack_fold_rows_nonempty:
  "[] \<notin> set (rows s) \<Longrightarrow> [] \<notin> set (rows (fold (pack_step wn c m) bs s))"
  by (induction bs arbitrary: s) (simp_all add: pack_step_rows_nonempty)

text \<open>Evaluating the layout functions on concrete inputs.\<close>

lemma floor_numeral_div:
  "\<lfloor>numeral a / numeral b :: rat\<rfloor> = numeral a div numeral b"
  using floor_divide_of_int_eq [of "numeral a" "numeral b", where ?'a = rat] by simp

lemmas layout_eval =
  processBoxesIntoRows_def pack_step_def pack_init_def pack_finish_def boxWidth_def
  shouldBreakBeforeBox_def calculateBoxWidth_def calculateWeekCellWidth_def
  getResponsiveConstants_def calculateDynamicConstants_def staticConstants_def
  breakpoint_of_def mk_constants_def js_gt_def js_ge_def js_sgn_inf_def rowWidth_def Let_def floor_numeral_div

text \<open>
  C4. For every box sequence, compact-mode flag, optional measured width (and every
  viewport), the rows returned by \<^verbatim>\<open>processBoxesIntoRows\<close> are all non-empty and their
  concatenation, in order, is exactly the input sequence: nothing is reordered, dropped or
  duplicated, and the trailing row is flushed.
\<close>

theorem processBoxesIntoRows_partition:
  "concat (processBoxesIntoRows window boxes compactMode measuredWidth) = boxes \<and>
   (\<forall>row \<in> set (processBoxesIntoRows window boxes compactMode measuredWidth). row \<noteq> [])"
proof -
  let ?s = "fold (pack_step window compactMode measuredWidth) boxes pack_init"
  have c: "concat (rows ?s) @ currentRow ?s = boxes"
    using pack_fold_concat [of window compactMode measuredWidth boxes pack_init]
    by (simp add: pack_init_def)
  have n: "[] \<notin> set (rows ?s)"
    by (rule pack_fold_rows_nonempty) (simp add: pack_init_def)
  have "concat (pack_finish ?s) = boxes"
    using c by (cases "currentRow ?s") (auto simp: pack_finish_def)
  moreover have "\<forall>row \<in> set (pack_finish ?s). row \<noteq> []"
    using n by (auto simp: pack_finish_def)
  ultimately show ?thesis by (simp add: processBoxesIntoRows_def)
qed

theorem processBoxesIntoRows_partition_witness:
  "processBoxesIntoRows None
     [\<lparr>type = birthday, label = [0x61], date = 0, year = 2000, boxEventType = None\<rparr>,
      \<lparr>type = week, label = [], date = 1, year = 2000, boxEventType = None\<rparr>,
      \<lparr>type = week, label = [], date = 2, year = 2000, boxEventType = None\<rparr>]
     False (Some (Fin 50))
   = [[\<lparr>type = birthday, label = [0x61], date = 0, year = 2000, boxEventType = None\<rparr>,
       \<lparr>type = week, label = [], date = 1, year = 2000, boxEventType = None\<rparr>],
      [\<lparr>type = week, label = [], date = 2, year = 2000, boxEventType = None\<rparr>]]
   \<and> concat (processBoxesIntoRows None
     [\<lparr>type = birthday, label = [0x61], date = 0, year = 2000, boxEventType = None\<rparr>,
      \<lparr>type = week, label = [], date = 1, year = 2000, boxEventType = None\<rparr>,
      \<lparr>type = week, label = [], date = 2, year = 2000, boxEventType = None\<rparr>]
     False (Some (Fin 50)))
   = [\<lparr>type = birthday, label = [0x61], date = 0, year = 2000, boxEventType = None\<rparr>,
      \<lparr>type = week, label = [], date = 1, year = 2000, boxEventType = None\<rparr>,
      \<lparr>type = week, label = [], date = 2, year = 2000, boxEventType = None\<rparr>]
   \<and> [] \<notin> set (processBoxesIntoRows None
     [\<lparr>type = birthday, label = [0x61], date = 0, year = 2000, boxEventType = None\<rparr>,
      \<lparr>type = week, label = [], date = 1, year = 2000, boxEventType = None\<rparr>,
      \<lparr>type = week, label = [], date = 2, year = 2000, boxEventType = None\<rparr>]
     False (Some (Fin 50)))"
proof -
  have e: "processBoxesIntoRows None
     [\<lparr>type = birthday, label = [0x61], date = 0, year = 2000, boxEventType = None\<rparr>,
      \<lparr>type = week, label = [], date = 1, year = 2000, boxEventType = None\<rparr>,
      \<lparr>type = week, label = [], date = 2, year = 2000, boxEventType = None\<rparr>]
     False (Some (Fin 50))
   = [[\<lparr>type = birthday, label = [0x61], date = 0, year = 2000, boxEventType = None\<rparr>,
       \<lparr>type = week, label = [], date = 1, year = 2000, boxEventType = None\<rparr>],
      [\<lparr>type = week, label = [], date = 2, year = 2000, boxEventType = None\<rparr>]]"
    by (simp add: layout_eval)
  show ?thesis
    using processBoxesIntoRows_partition [of None
     "[\<lparr>type = birthday, label = [0x61], date = 0, year = 2000, boxEventType = None\<rparr>,
      \<lparr>type = week, label = [], date = 1, year = 2000, boxEventType = None\<rparr>,
      \<lparr>type = week, label = [], date = 2, year = 2000, boxEventType = None\<rparr>]"
     False "Some (Fin 50)"] e by auto
qed

section \<open>Row packing: row widths\<close>

text \<open>
  The loop adds up \<^verbatim>\<open>calculateWeekCellWidth\<close> for a box of type \<^verbatim>\<open>week\<close> and
  \<^verbatim>\<open>calculateBoxWidth\<close> for every other box, while \<^verbatim>\<open>shouldBreakBeforeBox\<close> sizes the
  same box from its label alone: as a week cell when the label is empty, as a labelled box
  otherwise. The two disagree on a week box that has a label and on another box that has
  none. With a measured width of 50 pixels (effective width 47) and no \<^verbatim>\<open>window\<close>, two
  week boxes labelled \<^verbatim>\<open>a\<close> are tested as 26 + 12 = 38 and kept on one row, whose
  width is 26 + 26 = 52.
\<close>

lemma packing_overflow_labelled_week:
  "processBoxesIntoRows None
     [\<lparr>type = week, label = [0x61], date = 0, year = 2000, boxEventType = None\<rparr>,
      \<lparr>type = week, label = [0x61], date = 7, year = 2000, boxEventType = None\<rparr>]
     False (Some (Fin 50))
   = [[\<lparr>type = week, label = [0x61], date = 0, year = 2000, boxEventType = None\<rparr>,
       \<lparr>type = week, label = [0x61], date = 7, year = 2000, boxEventType = None\<rparr>]]
   \<and> rowWidth None False (Some (Fin 50))
       [\<lparr>type = week, label = [0x61], date = 0, year = 2000, boxEventType = None\<rparr>,
        \<lparr>type = week, label = [0x61], date = 7, year = 2000, boxEventType = None\<rparr>] = Fin 52
   \<and> containerWidth (getResponsiveConstants None False (Some (Fin 50))) = Fin 47
   \<and> shouldBreakBeforeBox None (Fin 26) [0x61] False (Some (Fin 50)) = False
   \<and> js_ge (js_add (Fin 26)
         (boxWidth None False (Some (Fin 50))
            \<lparr>type = week, label = [0x61], date = 7, year = 2000, boxEventType = None\<rparr>))
       (containerWidth (getResponsiveConstants None False (Some (Fin 50))))"
  by (simp add: layout_eval)

text \<open>
  An event box whose headline is empty is tested as an empty week cell (18 pixels in a
  viewport of 768) and added as a labelled box (19 pixels at a measured width of 1203).
  The row reaches the effective width of 1142 without a break.
\<close>

lemma packing_overflow_empty_headline:
  "processBoxesIntoRows (Some (Fin 768))
     [\<lparr>type = event, label = replicate 138 0x61, date = 0, year = 2000, boxEventType = Some personal\<rparr>,
      \<lparr>type = event, label = [], date = 7, year = 2000, boxEventType = Some personal\<rparr>]
     False (Some (Fin 1203))
   = [[\<lparr>type = event, label = replicate 138 0x61, date = 0, year = 2000, boxEventType = Some personal\<rparr>,
       \<lparr>type = event, label = [], date = 7, year = 2000, boxEventType = Some personal\<rparr>]]
   \<and> rowWidth (Some (Fin 768)) False (Some (Fin 1203))
       [\<lparr>type = event, label = replicate 138 0x61, date = 0, year = 2000, boxEventType = Some personal\<rparr>,
        \<lparr>type = event, label = [], date = 7, year = 2000, boxEventType = Some personal\<rparr>] = Fin 1142
   \<and> containerWidth (getResponsiveConstants (Some (Fin 768)) False (Some (Fin 1203))) = Fin 1142"
  by (simp add: layout_eval)

text \<open>
  Apart from that disagreement the packer keeps its promise: when every box is
  label-consistent, every row is a single box or strictly narrower than the effective
  container width. The resolved constants are finite, up to an infinite container width.
\<close>

lemma constants_finite:
  "\<exists>p c. basePadding (getResponsiveConstants window cm mw) = Fin p \<and>
         charWidth (getResponsiveConstants window cm mw) = Fin c \<and>
         (containerWidth (getResponsiveConstants window cm mw) = PosInf \<or>
          (\<exists>k. containerWidth (getResponsiveConstants window cm mw) = Fin k))"
proof (cases "\<exists>w. mw = Some w \<and> js_truthy mw \<and> js_gt w (Fin 0)")
  case False
  then have s: "getResponsiveConstants window cm mw = staticConstants window cm"
    by (auto simp: getResponsiveConstants_def split: option.splits)
  obtain bp where "staticConstants window cm = GRID_CONSTANTS cm bp"
    by (cases window) (auto simp: staticConstants_def)
  then show ?thesis
    unfolding s by (cases cm; cases bp) (simp_all add: mk_constants_def)
next
  case True
  then obtain w where w: "mw = Some w" "js_gt w (Fin 0)" by blast
  then have d: "getResponsiveConstants window cm mw = calculateDynamicConstants w cm"
    using True by (auto simp: getResponsiveConstants_def)
  show ?thesis
  proof (cases w)
    case (Fin x)
    show ?thesis
      unfolding d Fin by (simp add: calculateDynamicConstants_def Let_def split_beta)
  next
    case PosInf
    show ?thesis
      unfolding d PosInf
      by (simp add: calculateDynamicConstants_def Let_def split_beta js_sgn_inf_def)
  next
    case NaN
    then show ?thesis using w by (simp add: js_gt_def)
  next
    case NegInf
    then show ?thesis using w by (simp add: js_gt_def)
  qed
qed

lemma weekCell_finite: "\<exists>x. calculateWeekCellWidth window cm = Fin x"
  by (simp add: calculateWeekCellWidth_def Let_def)

lemma boxWidth_finite: "\<exists>x. boxWidth window cm mw b = Fin x"
proof (cases "type b = week")
  case True
  then show ?thesis using weekCell_finite by (simp add: boxWidth_def)
next
  case False
  obtain p c where "basePadding (getResponsiveConstants window cm mw) = Fin p"
    "charWidth (getResponsiveConstants window cm mw) = Fin c"
    using constants_finite [of window cm mw] by blast
  then show ?thesis using False by (simp add: boxWidth_def calculateBoxWidth_def Let_def)
qed

lemma check_width:
  "label_consistent b \<Longrightarrow>
   shouldBreakBeforeBox window cur (label b) cm mw =
   js_ge (js_add cur (boxWidth window cm mw b))
     (containerWidth (getResponsiveConstants window cm mw))"
  by (auto simp: shouldBreakBeforeBox_def boxWidth_def label_consistent_def Let_def)

lemma rowWidth_snoc:
  "rowWidth window cm mw (r @ [b]) = js_add (rowWidth window cm mw r) (boxWidth window cm mw b)"
  by (simp add: rowWidth_def)

lemma not_ge_lt:
  assumes "cw = PosInf \<or> (\<exists>k. cw = Fin k)" "\<not> js_ge (Fin x) cw"
  shows "js_lt (Fin x) cw"
  using assms by (auto simp: js_ge_def)

lemma pack_inv_step:
  assumes c: "label_consistent b" and i: "pack_inv window cm mw s"
  shows "pack_inv window cm mw (pack_step window cm mw b s)"
proof -
  let ?cw = "containerWidth (getResponsiveConstants window cm mw)"
  obtain w where w: "boxWidth window cm mw b = Fin w" using boxWidth_finite by blast
  obtain x where x: "currentRowWidth s = Fin x"
    using i by (auto simp: pack_inv_def split: jsnum.splits)
  have rw: "currentRowWidth s = rowWidth window cm mw (currentRow s)"
    using i by (simp add: pack_inv_def)
  have rows: "list_all (row_fits window cm mw) (rows s)" using i by (simp add: pack_inv_def)
  have cur: "currentRow s = [] \<or> row_fits window cm mw (currentRow s)"
    using i by (simp add: pack_inv_def)
  have cwf: "?cw = PosInf \<or> (\<exists>k. ?cw = Fin k)" using constants_finite [of window cm mw] by blast
  have e0: "rowWidth window cm mw [] = Fin 0" by (simp add: rowWidth_def)
  show ?thesis
  proof (cases "shouldBreakBeforeBox window (currentRowWidth s) (label b) cm mw \<and> length (currentRow s) > 0")
    case True
    then have ne: "currentRow s \<noteq> []" by auto
    have st: "pack_step window cm mw b s =
        \<lparr>rows = rows s @ [currentRow s], currentRow = [b], currentRowWidth = js_add (Fin 0) (Fin w)\<rparr>"
      using True by (simp add: pack_step_def Let_def w)
    have "rowWidth window cm mw [b] = js_add (Fin 0) (Fin w)"
      using rowWidth_snoc [of window cm mw "[]" b] by (simp add: e0 w)
    then show ?thesis
      unfolding st using rows cur ne by (simp add: pack_inv_def row_fits_def)
  next
    case False
    have st: "pack_step window cm mw b s =
        \<lparr>rows = rows s, currentRow = currentRow s @ [b], currentRowWidth = Fin (x + w)\<rparr>"
      using False by (auto simp: pack_step_def Let_def w x)
    have rx: "rowWidth window cm mw (currentRow s) = Fin x" using rw x by simp
    have rw': "rowWidth window cm mw (currentRow s @ [b]) = Fin (x + w)"
      by (simp add: rowWidth_snoc w rx)
    have fits: "row_fits window cm mw (currentRow s @ [b])"
    proof (cases "currentRow s = []")
      case True
      then show ?thesis by (simp add: row_fits_def)
    next
      case ne: False
      then have "\<not> shouldBreakBeforeBox window (currentRowWidth s) (label b) cm mw"
        using False by simp
      then have "\<not> js_ge (Fin (x + w)) ?cw"
        by (simp add: check_width [OF c] w x)
      then have "js_lt (Fin (x + w)) ?cw" using cwf by (rule not_ge_lt [rotated])
      then show ?thesis by (simp add: row_fits_def rw')
    qed
    show ?thesis
      unfolding st using rows fits rw' by (simp add: pack_inv_def)
  qed
qed

lemma pack_inv_fold:
  "\<forall>b \<in> set bs. label_consistent b \<Longrightarrow> pack_inv window cm mw s \<Longrightarrow>
   pack_inv window cm mw (fold (pack_step window cm mw) bs s)"
  by (induction bs arbitrary: s) (simp_all add: pack_inv_step)

lemma consistent_rows_fit:
  assumes "\<forall>b \<in> set boxes. label_consistent b"
  shows "list_all (row_fits window cm mw) (processBoxesIntoRows window boxes cm mw)"
proof -
  have "pack_inv window cm mw pack_init"
    by (simp add: pack_inv_def pack_init_def rowWidth_def)
  then have "pack_inv window cm mw (fold (pack_step window cm mw) boxes pack_init)"
    using assms by (intro pack_inv_fold)
  then show ?thesis
    by (auto simp: processBoxesIntoRows_def pack_finish_def pack_inv_def)
qed

section \<open>Constant resolution\<close>

text \<open>
  A measured width of \<^verbatim>\<open>Infinity\<close> is truthy and greater than zero: it passes the guard,
  and the effective container width it yields is infinite.
\<close>

theorem infinite_width_propagates:
  "getResponsiveConstants None False (Some PosInf) = calculateDynamicConstants PosInf False \<and>
   containerWidth (getResponsiveConstants None False (Some PosInf)) = PosInf \<and>
   containerWidth (staticConstants None False) = Fin 668"
  by (simp add: layout_eval)

text \<open>
  C9 (as amended). When no width is supplied, or the width is \<^verbatim>\<open>NaN\<close>, zero, negative or
  \<^verbatim>\<open>-Infinity\<close>, constant resolution ignores the measurement and returns the static
  breakpoint constants, which do not depend on it. The dynamic constants are derived
  exactly when the width is positive; for a finite width \<open>x\<close> the effective container
  width is the floor of \<open>0.95 x\<close>, and for \<^verbatim>\<open>+Infinity\<close> it is \<^verbatim>\<open>+Infinity\<close>.
\<close>

theorem getResponsiveConstants_guard:
  "getResponsiveConstants window c None = staticConstants window c \<and>
   getResponsiveConstants window c (Some NaN) = staticConstants window c \<and>
   getResponsiveConstants window c (Some NegInf) = staticConstants window c \<and>
   getResponsiveConstants window c (Some (Fin x)) =
     (if 0 < x then calculateDynamicConstants (Fin x) c else staticConstants window c) \<and>
   getResponsiveConstants window c (Some PosInf) = calculateDynamicConstants PosInf c \<and>
   containerWidth (calculateDynamicConstants (Fin x) c) = Fin (of_int \<lfloor>x * (95 / 100)\<rfloor>) \<and>
   containerWidth (calculateDynamicConstants PosInf c) = PosInf"
  by (simp add: getResponsiveConstants_def calculateDynamicConstants_def js_gt_def
        js_sgn_inf_def Let_def split_beta)

section \<open>The colour walk\<close>

lemma color_step_index:
  "colorIndex (color_step P M mw b st) = colorIndex st + (if date b \<in> mw then 1 else 0)"
  by (simp add: color_step_def Let_def)

lemma color_fold_index:
  "colorIndex (fold (color_step P M mw) bs st) =
   colorIndex st + length (filter (\<lambda>b. date b \<in> mw) bs)"
  by (induction bs arbitrary: st) (simp_all add: color_step_index)

lemma color_step_map:
  "boxColorMap (color_step P M mw b st) (date b) = Some (currentBoxColor (color_step P M mw b st))"
  by (simp add: color_step_def Let_def)

lemma apply_overrides_last:
  "apply_overrides es c =
   (if filter overrides es = [] then c else color (last (filter overrides es)))"
  unfolding apply_overrides_def
  by (induction es arbitrary: c) simp_all

lemma color_step_color:
  "currentBoxColor (color_step P M mw b st) =
   (let c1 = (if date b \<in> mw \<and> colorIndex st + 1 < length P
              then Some (P ! (colorIndex st + 1)) else currentBoxColor st)
    in case M (date b) of Some es \<Rightarrow> apply_overrides es c1 | None \<Rightarrow> c1)"
  by (simp add: color_step_def Let_def js_nth_def split: option.splits)

lemma color_step_color_plain:
  "no_override M (date b) \<Longrightarrow>
   currentBoxColor (color_step P M mw b st) =
   (if date b \<in> mw \<and> colorIndex st + 1 < length P
    then Some (P ! (colorIndex st + 1)) else currentBoxColor st)"
  by (simp add: color_step_color no_override_def apply_overrides_last Let_def
        split: option.splits)

lemma on_palette_init: "P \<noteq> [] \<Longrightarrow> on_palette P (color_init P)"
  by (simp add: on_palette_def color_init_def js_nth_def)

lemma on_palette_step:
  assumes "no_override M (date b)" "on_palette P st"
  shows "on_palette P (color_step P M mw b st)"
proof (cases "date b \<in> mw")
  case False
  then show ?thesis
    using assms by (simp add: on_palette_def color_step_color_plain color_step_index)
next
  case True
  show ?thesis
  proof (cases "colorIndex st + 1 < length P")
    case True
    then have "min (colorIndex st + 1) (length P - 1) = colorIndex st + 1"
      by arith
    then show ?thesis
      using assms \<open>date b \<in> mw\<close> True
      by (simp add: on_palette_def color_step_color_plain color_step_index)
  next
    case False
    then have "min (colorIndex st + 1) (length P - 1) = min (colorIndex st) (length P - 1)"
      by arith
    then show ?thesis
      using assms \<open>date b \<in> mw\<close> False
      by (simp add: on_palette_def color_step_color_plain color_step_index)
  qed
qed

lemma on_palette_fold:
  "\<forall>b \<in> set bs. no_override M (date b) \<Longrightarrow> on_palette P st \<Longrightarrow>
   on_palette P (fold (color_step P M mw) bs st)"
  by (induction bs arbitrary: st) (simp_all add: on_palette_step)

lemma collect_fold_superset:
  "mw \<subseteq> fold (\<lambda>box mw. if type box = event \<and> has_milestone M (date box)
                     then insert (date box) mw else mw) bs mw"
proof (induction bs arbitrary: mw)
  case Nil
  show ?case by simp
next
  case (Cons b bs)
  show ?case using Cons.IH [of "if type b = event \<and> has_milestone M (date b) then insert (date b) mw else mw"]
    by (auto split: if_splits)
qed

lemma collect_has_milestone:
  "has_milestone M d \<Longrightarrow> d \<in> collectMilestoneWeeks M w"
  unfolding collectMilestoneWeeks_def
  using collect_fold_superset [of "milestoneWeeks w \<union> {d. has_milestone M d}" M "allBoxes w"]
  by auto

lemma collect_walk_recorded:
  "d \<in> milestoneWeeks w \<Longrightarrow> d \<in> collectMilestoneWeeks M w"
  unfolding collectMilestoneWeeks_def
  using collect_fold_superset [of "milestoneWeeks w \<union> {d. has_milestone M d}" M "allBoxes w"]
  by auto

lemma color_fold_map_other:
  "d \<notin> date ` set bs \<Longrightarrow>
   boxColorMap (fold (color_step P M mw) bs st) d = boxColorMap st d"
  by (induction bs arbitrary: st) (simp_all add: color_step_def Let_def)

lemma color_fold_keep:
  "\<forall>x \<in> set bs. date x \<notin> mw \<and> no_override M (date x) \<Longrightarrow>
   currentBoxColor (fold (color_step P M mw) bs st) = currentBoxColor st \<and>
   (\<forall>x \<in> set bs. boxColorMap (fold (color_step P M mw) bs st) (date x)
       = Some (currentBoxColor st))"
proof (induction bs arbitrary: st)
  case Nil
  show ?case by simp
next
  case (Cons b bs)
  let ?st = "color_step P M mw b st"
  have keep: "currentBoxColor ?st = currentBoxColor st"
    using Cons.prems by (simp add: color_step_color_plain)
  have rest: "\<forall>x \<in> set bs. date x \<notin> mw \<and> no_override M (date x)"
    using Cons.prems by simp
  note ih = Cons.IH [OF rest, of ?st]
  have here: "boxColorMap (fold (color_step P M mw) bs ?st) (date b) = Some (currentBoxColor st)"
  proof (cases "date b \<in> date ` set bs")
    case True
    then obtain x where "x \<in> set bs" "date x = date b" by auto
    then show ?thesis using ih keep by metis
  next
    case False
    then show ?thesis
      using color_fold_map_other [of "date b" bs P M mw ?st] keep
      by (simp add: color_step_map)
  qed
  show ?case using ih keep here by simp
qed

text \<open>
  The colour walk starts at index 0. For every prefix \<open>bs\<close> of the visiting order and the
  next box \<open>b\<close>: the index after \<open>bs\<close> is the number of boxes of \<open>bs\<close> whose date is in
  the milestone set, so it never decreases; \<open>b\<close> advances it by one exactly when its date
  is in the set, and the set holds every date that bears a milestone-flagged personal
  event and every week start the calendar walk recorded; the colour recorded for \<open>b\<close> is
  the current colour after its step.
\<close>

lemma color_walk_index:
  "colorIndex (color_init milestoneColors) = 0 \<and>
   colorIndex (fold (color_step milestoneColors mergedEvents
                       (collectMilestoneWeeks mergedEvents w)) bs (color_init milestoneColors))
     = length (filter (\<lambda>x. date x \<in> collectMilestoneWeeks mergedEvents w) bs) \<and>
   colorIndex (fold (color_step milestoneColors mergedEvents
                       (collectMilestoneWeeks mergedEvents w)) (bs @ [b]) (color_init milestoneColors))
     = colorIndex (fold (color_step milestoneColors mergedEvents
                       (collectMilestoneWeeks mergedEvents w)) bs (color_init milestoneColors))
       + (if date b \<in> collectMilestoneWeeks mergedEvents w then 1 else 0) \<and>
   (has_milestone mergedEvents (date b) \<or> date b \<in> milestoneWeeks w
      \<longrightarrow> date b \<in> collectMilestoneWeeks mergedEvents w) \<and>
   boxColorMap (fold (color_step milestoneColors mergedEvents
                       (collectMilestoneWeeks mergedEvents w)) (bs @ [b]) (color_init milestoneColors))
       (date b)
     = Some (currentBoxColor (fold (color_step milestoneColors mergedEvents
                       (collectMilestoneWeeks mergedEvents w)) (bs @ [b]) (color_init milestoneColors)))"
proof -
  let ?mw = "collectMilestoneWeeks mergedEvents w"
  let ?step = "color_step milestoneColors mergedEvents ?mw"
  let ?init = "color_init milestoneColors"
  have i0: "colorIndex ?init = 0" by (simp add: color_init_def)
  have idx: "colorIndex (fold ?step bs ?init) = length (filter (\<lambda>x. date x \<in> ?mw) bs)"
    by (simp add: color_fold_index i0)
  have adv: "colorIndex (fold ?step (bs @ [b]) ?init)
      = colorIndex (fold ?step bs ?init) + (if date b \<in> ?mw then 1 else 0)"
    by (simp add: color_step_index)
  have mem: "has_milestone mergedEvents (date b) \<or> date b \<in> milestoneWeeks w \<longrightarrow> date b \<in> ?mw"
    using collect_has_milestone collect_walk_recorded by blast
  have mp: "boxColorMap (fold ?step (bs @ [b]) ?init) (date b)
      = Some (currentBoxColor (fold ?step (bs @ [b]) ?init))"
    by (simp add: color_step_map)
  show ?thesis using i0 idx adv mem mp by blast
qed

text \<open>
  With a palette that is not empty and no override at the boxes visited, the current
  colour is the palette's first entry at the start and then the entry at the index, or
  the last entry once the index has passed the end.
\<close>

lemma color_walk_palette:
  assumes pal: "milestoneColors \<noteq> []"
    and plain: "\<forall>x \<in> set bs. no_override mergedEvents (date x)"
  shows
    "currentBoxColor (color_init milestoneColors) = Some (milestoneColors ! 0) \<and>
     currentBoxColor (fold (color_step milestoneColors mergedEvents mws) bs
                        (color_init milestoneColors))
       = Some (milestoneColors !
           min (colorIndex (fold (color_step milestoneColors mergedEvents mws) bs
                              (color_init milestoneColors)))
               (length milestoneColors - 1))"
proof -
  let ?step = "color_step milestoneColors mergedEvents mws"
  let ?init = "color_init milestoneColors"
  have c0: "currentBoxColor ?init = Some (milestoneColors ! 0)"
    using pal by (simp add: color_init_def js_nth_def)
  have "on_palette milestoneColors (fold ?step bs ?init)"
    using plain on_palette_init [OF pal] by (intro on_palette_fold) auto
  then have col: "currentBoxColor (fold ?step bs ?init)
      = Some (milestoneColors ! min (colorIndex (fold ?step bs ?init)) (length milestoneColors - 1))"
    by (simp add: on_palette_def)
  show ?thesis using c0 col by simp
qed

text \<open>
  C7 (as amended). When an event at the box's date is personal, milestone-flagged and has
  a colour, the colour of the last such event replaces the current colour: it is recorded
  for this box and for all following boxes up to the next box whose date is in the
  milestone set or bears such an event.
\<close>

theorem override_replaces_color:
  assumes ev: "mergedEvents (date b) = Some es"
    and ov: "filter overrides es \<noteq> []"
    and later: "\<forall>x \<in> set bs. date x \<notin> mws \<and> no_override mergedEvents (date x)"
  shows
    "currentBoxColor (color_step milestoneColors mergedEvents mws b st)
       = color (last (filter overrides es)) \<and>
     boxColorMap (color_step milestoneColors mergedEvents mws b st) (date b)
       = Some (color (last (filter overrides es))) \<and>
     currentBoxColor (fold (color_step milestoneColors mergedEvents mws) bs
                        (color_step milestoneColors mergedEvents mws b st))
       = color (last (filter overrides es)) \<and>
     (\<forall>x \<in> set bs.
        boxColorMap (fold (color_step milestoneColors mergedEvents mws) bs
                       (color_step milestoneColors mergedEvents mws b st)) (date x)
          = Some (color (last (filter overrides es))))"
proof -
  let ?st = "color_step milestoneColors mergedEvents mws b st"
  have c: "currentBoxColor ?st = color (last (filter overrides es))"
    using ev ov by (simp add: color_step_color apply_overrides_last Let_def)
  have m: "boxColorMap ?st (date b) = Some (color (last (filter overrides es)))"
    using c by (simp add: color_step_map)
  show ?thesis
    using color_fold_keep [OF later, of milestoneColors ?st] c m by simp
qed

section \<open>Calendar arithmetic\<close>

lemma div_step:
  fixes y k :: int
  assumes "0 < k"
  shows "y div k = (y - 1) div k + (if y mod k = 0 then 1 else 0)"
proof -
  define q where "q = y div k"
  define r where "r = y mod k"
  have y: "y = k * q + r" by (simp add: q_def r_def)
  have r: "0 \<le> r" "r < k" using assms by (simp_all add: r_def)
  show ?thesis
  proof (cases "r = 0")
    case True
    have "y - 1 = k * (q - 1) + (k - 1)" unfolding y True by (simp add: algebra_simps)
    then have "(y - 1) div k = q - 1"
      using assms by (intro int_div_pos_eq[of _ _ _ "k - 1"]) auto
    then show ?thesis using True by (simp add: q_def[symmetric] r_def[symmetric])
  next
    case False
    have "y - 1 = k * q + (r - 1)" unfolding y by simp
    then have "(y - 1) div k = q"
      using assms r False by (intro int_div_pos_eq[of _ _ _ "r - 1"]) auto
    then show ?thesis using False by (simp add: q_def[symmetric] r_def[symmetric])
  qed
qed

lemma mod_100_4: "(y::int) mod 100 = 0 \<Longrightarrow> y mod 4 = 0"
proof -
  assume "y mod 100 = 0"
  then have "100 dvd y" by (simp add: dvd_eq_mod_eq_0)
  moreover have "(4::int) dvd 100" by simp
  ultimately have "4 dvd y" by (rule dvd_trans[rotated])
  then show ?thesis by (simp add: dvd_eq_mod_eq_0)
qed

lemma mod_400_100: "(y::int) mod 400 = 0 \<Longrightarrow> y mod 100 = 0"
proof -
  assume "y mod 400 = 0"
  then have "400 dvd y" by (simp add: dvd_eq_mod_eq_0)
  moreover have "(100::int) dvd 400" by simp
  ultimately have "100 dvd y" by (rule dvd_trans[rotated])
  then show ?thesis by (simp add: dvd_eq_mod_eq_0)
qed

lemma days_before_year_step:
  "days_before_year (y + 1) = days_before_year y + (if is_leap y then 366 else 365)"
proof -
  have a: "y div 4 = (y - 1) div 4 + (if y mod 4 = 0 then 1 else 0)" by (rule div_step) simp
  have b: "y div 100 = (y - 1) div 100 + (if y mod 100 = 0 then 1 else 0)" by (rule div_step) simp
  have c: "y div 400 = (y - 1) div 400 + (if y mod 400 = 0 then 1 else 0)" by (rule div_step) simp
  have "days_before_year (y + 1) = 365 * y + y div 4 - y div 100 + y div 400"
    by (simp add: days_before_year_def)
  also have "\<dots> = days_before_year y + 365 + (if y mod 4 = 0 then 1 else 0)
      - (if y mod 100 = 0 then 1 else 0) + (if y mod 400 = 0 then 1 else 0)"
    unfolding days_before_year_def by (simp only: a b c) (simp add: algebra_simps)
  also have "\<dots> = days_before_year y + (if is_leap y then 366 else 365)"
    using mod_100_4 [of y] mod_400_100 [of y]
    by (cases "y mod 4 = 0"; cases "y mod 100 = 0"; cases "y mod 400 = 0")
       (simp_all add: is_leap_def)
  finally show ?thesis .
qed

lemma MakeDay_step:
  "MakeDay (y + 1) m d = MakeDay y m d + 365 \<or> MakeDay (y + 1) m d = MakeDay y m d + 366"
proof -
  have e: "y + 1 + m div 12 = (y + m div 12) + 1" by simp
  show ?thesis
    unfolding MakeDay_def Let_def e days_before_year_step days_before_month_def
    by (cases "is_leap (y + m div 12)"; cases "is_leap (y + m div 12 + 1)"; cases "2 \<le> m mod 12")
       simp_all
qed

lemma MakeDay_later_aux: "MakeDay y m d + 365 \<le> MakeDay (y + 1 + int n) m d"
proof (induction n)
  case 0
  show ?case using MakeDay_step [of y m d] by auto
next
  case (Suc n)
  have e: "y + 1 + int (Suc n) = (y + 1 + int n) + 1" by simp
  show ?case
    unfolding e using Suc MakeDay_step [of "y + 1 + int n" m d] by auto
qed

text \<open>The same day of a later year is at least 365 days later.\<close>

lemma MakeDay_later:
  assumes "y < y'"
  shows "MakeDay y m d + 365 \<le> MakeDay y' m d"
proof -
  have "y' = y + 1 + int (nat (y' - y - 1))" using assms by simp
  then show ?thesis using MakeDay_later_aux [of y m d "nat (y' - y - 1)"] by simp
qed

text \<open>The constructor never reads a year as an earlier one.\<close>

lemma newDate_lower: "MakeDay y m d \<le> newDate y m d"
proof (cases "0 \<le> y \<and> y \<le> 99")
  case True
  then have "y < 1900 + y" by simp
  then have "MakeDay y m d + 365 \<le> MakeDay (1900 + y) m d" by (rule MakeDay_later)
  then show ?thesis using True by (simp add: newDate_def)
next
  case False
  then show ?thesis by (auto simp: newDate_def)
qed


lemma getMonth_range: "0 \<le> getMonth n \<and> getMonth n \<le> 11"
proof -
  let ?xs = "filter (\<lambda>m. days_before_month (getFullYear n) m \<le> day_of_year n)
               [11, 10, 9, 8, 7, 6, 5, 4, 3, 2, 1]"
  show ?thesis
  proof (cases ?xs)
    case Nil
    then show ?thesis by (simp add: getMonth_def)
  next
    case (Cons m ms)
    then have "m \<in> set ?xs" by simp
    then have "m \<in> set [11, 10, 9, 8, 7, 6, 5, 4, 3, 2, 1::int]" by (metis filter_is_subset subsetD)
    then have "0 \<le> m \<and> m \<le> 11" by auto
    then show ?thesis using Cons by (simp add: getMonth_def)
  qed
qed

lemma MakeDay_of_fields: "MakeDay (getFullYear n) (getMonth n) (getDate n) = n"
proof -
  have "getMonth n div 12 = 0" "getMonth n mod 12 = getMonth n"
    using getMonth_range [of n] by simp_all
  then show ?thesis
    by (simp add: MakeDay_def getDate_def day_of_year_def Let_def)
qed

lemma getDay_range: "0 \<le> getDay n \<and> getDay n \<le> 6"
  by (simp add: getDay_def) 

lemma getWeekStartSunday_bounds:
  "getWeekStartSunday n \<le> n \<and> n \<le> getWeekStartSunday n + 6"
  using getDay_range [of n] by (simp add: getWeekStartSunday_def)

lemma getWeekStartSunday_shift: "getWeekStartSunday (n + wk * 7) = getWeekStartSunday n + wk * 7"
proof -
  have "n + wk * 7 + 4 = (n + 4) + wk * 7" by simp
  then have "(n + wk * 7 + 4) mod 7 = (n + 4) mod 7"
    by (metis mod_mult_self1 mult.commute)
  then show ?thesis by (simp add: getWeekStartSunday_def getDay_def)
qed

text \<open>
  The calendar on a few days: 29 February, its overflow in a common year, and the years
  that the constructor moves into the twentieth century.
\<close>

lemma calendar_samples:
  "newDate 2000 1 29 = 11016 \<and> getFullYear 11016 = 2000 \<and> getMonth 11016 = 1 \<and>
   getDate 11016 = 29 \<and> newDate 2001 1 29 = newDate 2001 2 1 \<and>
   getFullYear 0 = 1970 \<and> getMonth 0 = 0 \<and> getDate 0 = 1 \<and> getDay 0 = 4 \<and>
   getFullYear (- 1) = 1969 \<and> getMonth (- 1) = 11 \<and> getDate (- 1) = 31 \<and>
   newDate 99 0 15 = newDate 1999 0 15 \<and> newDate 0 0 1 = newDate 1900 0 1 \<and>
   newDate 99 0 15 = 10606 \<and> newDate 100 0 15 = - 682989 \<and> newDate (- 1) 0 1 = - 719893"
  by (simp add: newDate_def MakeDay_def getMonth_def getDate_def day_of_year_def getFullYear_def
        days_before_year_def days_before_month_def month_starts_def is_leap_def getDay_def Let_def)

section \<open>The shape of the calendar walk\<close>

lemma weekDate_eq:
  "weekDate cfg yr wk =
   (if yr = startYear cfg then getWeekStartSunday (startDate cfg)
    else getWeekStartSunday (anniversary cfg yr)) + wk * 7"
  by (simp add: weekDate_def Let_def getWeekStartSunday_shift)


text \<open>The first anniversary is at least 365 days after the birth date.\<close>

lemma first_anniversary:
  assumes "startYear cfg = getFullYear (startDate cfg)"
  shows "startDate cfg + 365 \<le> anniversary cfg (startYear cfg + 1)"
proof -
  let ?m = "getMonth (startDate cfg)"
  let ?d = "getDate (startDate cfg)"
  have a: "MakeDay (startYear cfg) ?m ?d = startDate cfg"
    unfolding assms by (rule MakeDay_of_fields)
  have b: "MakeDay (startYear cfg) ?m ?d + 365 \<le> MakeDay (startYear cfg + 1) ?m ?d"
    by (rule MakeDay_later) simp
  have c: "MakeDay (startYear cfg + 1) ?m ?d \<le> newDate (startYear cfg + 1) ?m ?d"
    by (rule newDate_lower)
  show ?thesis using a b c by (simp add: anniversary_def)
qed

lemma week_body_boxes:
  "allBoxes (week_body cfg c M yr wk st) =
   allBoxes st @
   (if weekDate cfg yr wk < anniversary cfg (yr + 1)
    then [box_for_week c M (weekDate cfg yr wk) (anniversary cfg (yr + 1)) yr] else [])"
  by (simp add: week_body_def Let_def)

lemma week_fold_boxes:
  "allBoxes (fold (week_body cfg c M yr) ws st) =
   allBoxes st @
   map (\<lambda>wk. box_for_week c M (weekDate cfg yr wk) (anniversary cfg (yr + 1)) yr)
     (filter (\<lambda>wk. weekDate cfg yr wk < anniversary cfg (yr + 1)) ws)"
  by (induction ws arbitrary: st) (simp_all add: week_body_boxes)

lemma year_body_boxes:
  "allBoxes (year_body cfg c M yr st) =
   allBoxes st @
   (if yr - startYear cfg > 0 then [birthdayBox cfg c yr] else []) @
   map (\<lambda>wk. box_for_week c M (weekDate cfg yr wk) (anniversary cfg (yr + 1)) yr)
     (filter (\<lambda>wk. weekDate cfg yr wk < anniversary cfg (yr + 1))
        [(if yr - startYear cfg = 0 then 0 else 1)..52])"
  by (simp add: year_body_def Let_def week_fold_boxes)

lemma year_body_year_boxes:
  "allBoxes (year_body cfg c M yr st) = allBoxes st @ year_boxes cfg c M yr"
  by (simp add: year_boxes_def year_body_boxes)

lemma year_fold_boxes:
  "allBoxes (fold (year_body cfg c M) ys st) = allBoxes st @ concat (map (year_boxes cfg c M) ys)"
  by (induction ys arbitrary: st) (simp_all add: year_body_year_boxes)

lemma walk_boxes:
  "allBoxes (walk cfg c M) = concat (map (year_boxes cfg c M) [startYear cfg..endYear cfg])"
  by (simp add: walk_def year_fold_boxes)

lemma box_for_week_fields:
  "date (box_for_week c M wd nb yr) = wd \<and> year (box_for_week c M wd nb yr) = yr \<and>
   type (box_for_week c M wd nb yr) \<noteq> birthday"
  by (simp add: box_for_week_def weekBox_def eventBox_def Let_def split: option.splits)

text \<open>In the birth year no anchor reaches the first anniversary.\<close>

lemma birth_year_guard:
  assumes "startYear cfg = getFullYear (startDate cfg)" "0 \<le> wk" "wk \<le> 52"
  shows "weekDate cfg (startYear cfg) wk < anniversary cfg (startYear cfg + 1)"
proof -
  have "weekDate cfg (startYear cfg) wk = getWeekStartSunday (startDate cfg) + wk * 7"
    by (simp add: weekDate_eq)
  also have "\<dots> \<le> startDate cfg + 364"
    using getWeekStartSunday_bounds [of "startDate cfg"] assms(3) by simp
  also have "\<dots> < anniversary cfg (startYear cfg + 1)"
    using first_anniversary [OF assms(1)] by simp
  finally show ?thesis .
qed



text \<open>
  C10. When the start year is the year of the birth date, the birth-year pass of the year
  loop pushes exactly 53 boxes, none of them a birthday box: every week index from 0 to 52
  has its anchor, the Sunday on or before the birth date plus 7 days per week, strictly
  before the first anniversary, so the skip guard never fires.
\<close>

theorem birth_year_53_weeks:
  assumes "startYear cfg = getFullYear (startDate cfg)"
  shows
    "(\<forall>wk \<in> set [0..52]. weekDate cfg (startYear cfg) wk < anniversary cfg (startYear cfg + 1)) \<and>
     allBoxes (year_body cfg c M (startYear cfg) st) =
       allBoxes st @
       map (\<lambda>wk. box_for_week c M (getWeekStartSunday (startDate cfg) + wk * 7)
                    (anniversary cfg (startYear cfg + 1)) (startYear cfg)) [0..52] \<and>
     length (allBoxes (year_body cfg c M (startYear cfg) st)) = length (allBoxes st) + 53 \<and>
     (\<forall>b \<in> set (year_boxes cfg c M (startYear cfg)). type b \<noteq> birthday)"
proof -
  have g: "\<forall>wk \<in> set [0..52]. weekDate cfg (startYear cfg) wk < anniversary cfg (startYear cfg + 1)"
    using birth_year_guard [OF assms] by simp
  then have f: "filter (\<lambda>wk. weekDate cfg (startYear cfg) wk < anniversary cfg (startYear cfg + 1)) [0..52]
      = [0..52]"
    by (simp only: filter_True)
  have eq: "allBoxes (year_body cfg c M (startYear cfg) st) =
       allBoxes st @
       map (\<lambda>wk. box_for_week c M (getWeekStartSunday (startDate cfg) + wk * 7)
                    (anniversary cfg (startYear cfg + 1)) (startYear cfg)) [0..52]"
    by (simp add: year_body_boxes f) (simp add: weekDate_eq)
  have len: "length (allBoxes (year_body cfg c M (startYear cfg) st)) = length (allBoxes st) + 53"
    by (simp add: eq)
  have ty: "\<forall>b \<in> set (year_boxes cfg c M (startYear cfg)). type b \<noteq> birthday"
    by (auto simp: year_boxes_def year_body_boxes box_for_week_fields)
  show ?thesis using g eq len ty by blast
qed


lemma year_boxes_eq:
  "year_boxes cfg c M yr =
   (if yr - startYear cfg > 0 then [birthdayBox cfg c yr] else []) @
   map (\<lambda>wk. box_for_week c M (weekDate cfg yr wk) (anniversary cfg (yr + 1)) yr)
     (filter (\<lambda>wk. weekDate cfg yr wk < anniversary cfg (yr + 1))
        [(if yr - startYear cfg = 0 then 0 else 1)..52])"
  by (simp add: year_boxes_def year_body_boxes)


lemma year_boxes_birth:
  assumes "startYear cfg = getFullYear (startDate cfg)"
  shows "year_boxes cfg c M (startYear cfg) =
     map (\<lambda>wk. box_for_week c M (weekDate cfg (startYear cfg) wk)
                  (anniversary cfg (startYear cfg + 1)) (startYear cfg)) [0..52]"
proof -
  have "\<forall>wk \<in> set [0..52]. weekDate cfg (startYear cfg) wk < anniversary cfg (startYear cfg + 1)"
    using birth_year_guard [OF assms] by simp
  then have "filter (\<lambda>wk. weekDate cfg (startYear cfg) wk < anniversary cfg (startYear cfg + 1)) [0..52]
      = [0..52]"
    by (simp only: filter_True)
  then show ?thesis by (simp add: year_boxes_eq)
qed












section \<open>The events of a week\<close>

lemma scan_days_Some:
  "scan_days M wd nb days = Some (d, es) \<Longrightarrow>
   \<exists>day \<in> set days. d = wd + day \<and> d < nb \<and> M d = Some es \<and> es \<noteq> []"
  by (induction days) (auto simp: Let_def split: if_splits option.splits)

lemma week_body_mw:
  "milestoneWeeks (week_body cfg c M yr wk st) =
   milestoneWeeks st \<union>
   (if weekDate cfg yr wk < anniversary cfg (yr + 1) \<and>
       week_has_milestone M (weekDate cfg yr wk) (anniversary cfg (yr + 1))
    then {weekDate cfg yr wk} else {})"
  by (simp add: week_body_def Let_def)

lemma week_fold_mw:
  "milestoneWeeks (fold (week_body cfg c M yr) ws st) =
   milestoneWeeks st \<union> set (recorded_weeks cfg M yr ws)"
proof (induction ws arbitrary: st)
  case Nil
  show ?case by (simp add: recorded_weeks_def)
next
  case (Cons w ws)
  have "milestoneWeeks (fold (week_body cfg c M yr) (w # ws) st) =
        milestoneWeeks (week_body cfg c M yr w st) \<union> set (recorded_weeks cfg M yr ws)"
    using Cons.IH [of "week_body cfg c M yr w st"] by simp
  also have "\<dots> = milestoneWeeks st \<union> set (recorded_weeks cfg M yr (w # ws))"
    by (auto simp: week_body_mw recorded_weeks_def)
  finally show ?case .
qed

lemma year_body_mw:
  "milestoneWeeks (year_body cfg c M yr st) =
   milestoneWeeks st \<union>
   set (recorded_weeks cfg M yr [(if yr - startYear cfg = 0 then 0 else 1)..52])"
  by (simp add: year_body_def Let_def week_fold_mw)

lemma year_fold_mw:
  "milestoneWeeks (fold (year_body cfg c M) ys st) =
   milestoneWeeks st \<union>
   (\<Union>yr \<in> set ys. set (recorded_weeks cfg M yr [(if yr - startYear cfg = 0 then 0 else 1)..52]))"
proof (induction ys arbitrary: st)
  case Nil
  show ?case by simp
next
  case (Cons y ys)
  show ?case
    using Cons.IH [of "year_body cfg c M y st"] by (simp add: year_body_mw Un_assoc)
qed

lemma walk_mw:
  "milestoneWeeks (walk cfg c M) =
   (\<Union>yr \<in> set [startYear cfg..endYear cfg].
      set (recorded_weeks cfg M yr [(if yr - startYear cfg = 0 then 0 else 1)..52]))"
  by (simp add: walk_def year_fold_mw)

text \<open>
  C3 (as amended). For a week that is emitted, whose start date has no events and whose
  scan stops at a later day \<open>d\<close> (before the next anniversary) with events \<open>es\<close>: the box
  pushed for the week is dated at the week's start, not at \<open>d\<close> (an event box unless
  compact mode suppresses it), and when \<open>es\<close> holds a milestone-flagged personal event it
  is the week's start date, the value the box carries, that the walk adds to the
  milestone set.
\<close>

theorem event_box_carries_week_start:
  assumes emitted: "weekDate cfg yr wk < anniversary cfg (yr + 1)"
    and anchor: "mergedEvents (weekDate cfg yr wk) = None \<or> mergedEvents (weekDate cfg yr wk) = Some []"
    and found: "scan_days mergedEvents (weekDate cfg yr wk) (anniversary cfg (yr + 1))
                  [0, 1, 2, 3, 4, 5, 6] = Some (d, es)"
  shows
    "weekDate cfg yr wk < d \<and> d \<le> weekDate cfg yr wk + 6 \<and> d < anniversary cfg (yr + 1) \<and>
     mergedEvents d = Some es \<and> es \<noteq> [] \<and>
     allBoxes (week_body cfg isCompactMode mergedEvents yr wk st) =
       allBoxes st @
       [if isCompactMode \<and> \<not> shouldShowInCompact (headline (primaryEvent es))
        then weekBox (weekDate cfg yr wk) yr
        else eventBox isCompactMode (primaryEvent es) (weekDate cfg yr wk) yr] \<and>
     date (eventBox isCompactMode (primaryEvent es) (weekDate cfg yr wk) yr) = weekDate cfg yr wk \<and>
     date (eventBox isCompactMode (primaryEvent es) (weekDate cfg yr wk) yr) \<noteq> d \<and>
     milestoneWeeks (week_body cfg isCompactMode mergedEvents yr wk st) =
       (if list_ex is_milestone es then insert (weekDate cfg yr wk) (milestoneWeeks st)
        else milestoneWeeks st)"
proof -
  let ?wd = "weekDate cfg yr wk"
  let ?nb = "anniversary cfg (yr + 1)"
  obtain day where day: "day \<in> set [0, 1, 2, 3, 4, 5, 6::int]" "d = ?wd + day" "d < ?nb"
      "mergedEvents d = Some es" "es \<noteq> []"
    using scan_days_Some [OF found] by blast
  have ne: "d \<noteq> ?wd" using anchor day(4,5) by auto
  have rng: "?wd < d" "d \<le> ?wd + 6" using day(1,2) ne by auto
  have ev: "eventsForWeek mergedEvents ?wd ?nb = Some es"
    unfolding eventsForWeek_def found by simp
  have box: "box_for_week isCompactMode mergedEvents ?wd ?nb yr =
     (if isCompactMode \<and> \<not> shouldShowInCompact (headline (primaryEvent es))
      then weekBox ?wd yr else eventBox isCompactMode (primaryEvent es) ?wd yr)"
    using day(5) by (simp add: box_for_week_def ev Let_def)
  have boxes: "allBoxes (week_body cfg isCompactMode mergedEvents yr wk st) =
       allBoxes st @
       [if isCompactMode \<and> \<not> shouldShowInCompact (headline (primaryEvent es))
        then weekBox ?wd yr else eventBox isCompactMode (primaryEvent es) ?wd yr]"
    using emitted by (simp add: week_body_boxes box)
  have dt: "date (eventBox isCompactMode (primaryEvent es) ?wd yr) = ?wd"
    by (simp add: eventBox_def)
  have ms: "week_has_milestone mergedEvents ?wd ?nb = list_ex is_milestone es"
    unfolding week_has_milestone_def found by (simp add: list_ex_iff filter_empty_conv)
  have mw: "milestoneWeeks (week_body cfg isCompactMode mergedEvents yr wk st) =
       (if list_ex is_milestone es then insert ?wd (milestoneWeeks st) else milestoneWeeks st)"
    using emitted by (simp add: week_body_mw ms)
  show ?thesis using rng day(3,4,5) boxes dt ne mw by simp
qed

section \<open>Sample runs\<close>

lemmas date_eval =
  newDate_def MakeDay_def getMonth_def getDate_def day_of_year_def getFullYear_def days_before_year_def
  days_before_month_def month_starts_def is_leap_def getWeekStartSunday_def getDay_def

lemma sample_birth:
  "getFullYear 10971 = 2000 \<and> getMonth 10971 = 0 \<and> getDate 10971 = 15 \<and>
   getWeekStartSunday 10971 = 10965"
  by (simp add: date_eval Let_def)

lemma sample_anniversary:
  "anniversary cfg2000 2001 = 11337 \<and> anniversary cfg2001 2001 = 11337 \<and>
   anniversary cfg2001 2002 = 11702"
  by (simp add: anniversary_def cfg2000_def cfg2001_def sample_birth) (simp add: date_eval Let_def)

lemma sample_weekDate: "weekDate cfg2000 2000 wk = 10965 + wk * 7"
  by (simp add: weekDate_eq cfg2000_def sample_birth)

text \<open>The boxes of the one-year life from 2000-01-15: the 53 weeks of the birth year.\<close>

lemma sample_boxes:
  "allBoxes (walk cfg2000 c M) =
   map (\<lambda>wk. box_for_week c M (10965 + wk * 7) 11337 2000) [0..52]"
proof -
  have v: "startYear cfg2000 = getFullYear (startDate cfg2000)"
    by (simp add: cfg2000_def sample_birth)
  have y: "[startYear cfg2000..endYear cfg2000] = [2000]"
    by (simp add: cfg2000_def upto_rec1)
  have s: "startYear cfg2000 = 2000" by (simp add: cfg2000_def)
  have yb: "year_boxes cfg2000 c M 2000 =
      map (\<lambda>wk. box_for_week c M (10965 + wk * 7) 11337 2000) [0..52]"
    using year_boxes_birth [OF v, of c M]
    by (simp add: s sample_weekDate sample_anniversary)
  have "allBoxes (walk cfg2000 c M) = concat (map (year_boxes cfg2000 c M) [2000])"
    by (simp only: walk_boxes y)
  then show ?thesis by (simp add: yb)
qed

lemmas event_eval =
  mk_event_def is_milestone_def primaryEvent_def weekBox_def eventBox_def ascii_def Let_def

text \<open>
  A milestone on Wednesday 2000-01-19 and nothing else that week: the scan of the week of
  Sunday 2000-01-16 stops at the Wednesday, and the event box and the milestone set get
  the Sunday.
\<close>

theorem event_box_date_counterexample:
  "weekDate cfg2000 2000 1 = 10972 \<and> anniversary cfg2000 (2000 + 1) = 11337 \<and>
   wednesday_milestone 10972 = None \<and>
   scan_days wednesday_milestone 10972 11337 [0, 1, 2, 3, 4, 5, 6]
     = Some (10975, [mk_event personal (Some True) None (ascii ''Moved'')]) \<and>
   map type (allBoxes (week_body cfg2000 False wednesday_milestone 2000 1
                \<lparr>milestoneWeeks = {}, allBoxes = []\<rparr>)) = [event] \<and>
   map date (allBoxes (week_body cfg2000 False wednesday_milestone 2000 1
                \<lparr>milestoneWeeks = {}, allBoxes = []\<rparr>)) = [10972] \<and>
   milestoneWeeks (week_body cfg2000 False wednesday_milestone 2000 1
                \<lparr>milestoneWeeks = {}, allBoxes = []\<rparr>) = {10972}"
proof -
  have s: "scan_days wednesday_milestone 10972 11337 [0, 1, 2, 3, 4, 5, 6]
     = Some (10975, [mk_event personal (Some True) None (ascii ''Moved'')])"
    by (simp add: wednesday_milestone_def Let_def)
  have a: "anniversary cfg2000 (2000 + 1) = 11337" using sample_anniversary by simp
  show ?thesis
    unfolding week_body_def sample_weekDate a box_for_week_def eventsForWeek_def
      week_has_milestone_def
    by (simp add: s) (simp add: event_eval wednesday_milestone_def)
qed


theorem event_box_carries_week_start_witness:
  "weekDate cfg2000 2000 1 < anniversary cfg2000 (2000 + 1) \<and>
   wednesday_milestone (weekDate cfg2000 2000 1) = None \<and>
   scan_days wednesday_milestone (weekDate cfg2000 2000 1) (anniversary cfg2000 (2000 + 1))
     [0, 1, 2, 3, 4, 5, 6] = Some (10975, [mk_event personal (Some True) None (ascii ''Moved'')]) \<and>
   allBoxes (week_body cfg2000 False wednesday_milestone 2000 1 \<lparr>milestoneWeeks = {}, allBoxes = []\<rparr>)
     = [eventBox False (mk_event personal (Some True) None (ascii ''Moved'')) 10972 2000] \<and>
   date (eventBox False (mk_event personal (Some True) None (ascii ''Moved'')) 10972 2000) = 10972 \<and>
   milestoneWeeks (week_body cfg2000 False wednesday_milestone 2000 1
                     \<lparr>milestoneWeeks = {}, allBoxes = []\<rparr>) = {10972}"
proof -
  have a: "anniversary cfg2000 (2000 + 1) = 11337" using sample_anniversary by simp
  have h1: "weekDate cfg2000 2000 1 < anniversary cfg2000 (2000 + 1)"
    by (simp add: sample_weekDate sample_anniversary)
  have h2: "wednesday_milestone (weekDate cfg2000 2000 1) = None \<or>
            wednesday_milestone (weekDate cfg2000 2000 1) = Some []"
    by (simp add: sample_weekDate wednesday_milestone_def)
  have h3: "scan_days wednesday_milestone (weekDate cfg2000 2000 1) (anniversary cfg2000 (2000 + 1))
     [0, 1, 2, 3, 4, 5, 6] = Some (10975, [mk_event personal (Some True) None (ascii ''Moved'')])"
    unfolding sample_weekDate a by (simp add: wednesday_milestone_def Let_def)
  have p: "primaryEvent [mk_event personal (Some True) None (ascii ''Moved'')]
      = mk_event personal (Some True) None (ascii ''Moved'')"
    by (simp add: primaryEvent_def is_milestone_def mk_event_def)
  have m: "list_ex is_milestone [mk_event personal (Some True) None (ascii ''Moved'')]"
    by (simp add: is_milestone_def mk_event_def)
  show ?thesis
    using event_box_carries_week_start [OF h1 h2 h3, of False "\<lparr>milestoneWeeks = {}, allBoxes = []\<rparr>"]
      h1 h2 h3 p m
    by (simp add: sample_weekDate wednesday_milestone_def)
qed

theorem birth_year_53_weeks_witness:
  "startYear cfg2000 = getFullYear (startDate cfg2000) \<and>
   weekDate cfg2000 (startYear cfg2000) 52 < anniversary cfg2000 (startYear cfg2000 + 1) \<and>
   length (allBoxes (year_body cfg2000 False Map.empty (startYear cfg2000)
                       \<lparr>milestoneWeeks = {}, allBoxes = []\<rparr>)) = 53"
proof -
  have v: "startYear cfg2000 = getFullYear (startDate cfg2000)"
    by (simp add: cfg2000_def sample_birth)
  have "(52::int) \<in> set [0..52]" by simp
  then show ?thesis
    using birth_year_53_weeks [OF v, of False Map.empty "\<lparr>milestoneWeeks = {}, allBoxes = []\<rparr>"] v
    by auto
qed





text \<open>
  A world event and a personal event that is no milestone, both with a colour of their
  own, leave the current colour at the palette's first entry.
\<close>

theorem override_guard_counterexample:
  "coloured_world_event 10972 =
     Some [mk_event world None (Some (ascii ''red'')) (ascii ''Summit''),
           mk_event personal None (Some (ascii ''blue'')) (ascii ''Trip'')] \<and>
   currentBoxColor (assignColors palette0 coloured_world_event
      \<lparr>milestoneWeeks = {},
       allBoxes = [eventBox False (mk_event world None (Some (ascii ''red'')) (ascii ''Summit''))
                     10972 2000]\<rparr>) = Some (ascii ''A'') \<and>
   boxColorMap (assignColors palette0 coloured_world_event
      \<lparr>milestoneWeeks = {},
       allBoxes = [eventBox False (mk_event world None (Some (ascii ''red'')) (ascii ''Summit''))
                     10972 2000]\<rparr>) 10972 = Some (Some (ascii ''A''))"
  by (simp add: assignColors_def sortedBoxes_def collectMilestoneWeeks_def has_milestone_def
        color_step_def color_init_def js_nth_def apply_overrides_def overrides_def
        coloured_world_event_def palette0_def event_eval)

theorem override_replaces_color_witness:
  "coloured_milestone (date (eventBox False (mk_event personal (Some True) (Some (ascii ''red''))
        (ascii ''Moved'')) 10972 2000))
     = Some [mk_event personal (Some True) (Some (ascii ''red'')) (ascii ''Moved'')] \<and>
   filter overrides [mk_event personal (Some True) (Some (ascii ''red'')) (ascii ''Moved'')] \<noteq> [] \<and>
   date (weekBox 10979 2000) \<notin> {10972} \<and>
   no_override coloured_milestone (date (weekBox 10979 2000)) \<and>
   currentBoxColor (color_step palette0 coloured_milestone {10972}
      (eventBox False (mk_event personal (Some True) (Some (ascii ''red'')) (ascii ''Moved'')) 10972 2000)
      (color_init palette0)) = Some (ascii ''red'') \<and>
   boxColorMap (fold (color_step palette0 coloured_milestone {10972}) [weekBox 10979 2000]
      (color_step palette0 coloured_milestone {10972}
        (eventBox False (mk_event personal (Some True) (Some (ascii ''red'')) (ascii ''Moved'')) 10972 2000)
        (color_init palette0))) 10979 = Some (Some (ascii ''red''))"
proof -
  let ?e = "mk_event personal (Some True) (Some (ascii ''red'')) (ascii ''Moved'')"
  let ?b = "eventBox False ?e 10972 2000"
  have h1: "coloured_milestone (date ?b) = Some [?e]"
    by (simp add: coloured_milestone_def eventBox_def)
  have h2: "filter overrides [?e] \<noteq> []"
    by (simp add: overrides_def is_milestone_def mk_event_def ascii_def)
  have h3: "\<forall>x \<in> set [weekBox 10979 2000]. date x \<notin> {10972} \<and> no_override coloured_milestone (date x)"
    by (simp add: weekBox_def no_override_def coloured_milestone_def)
  have c: "color (last (filter overrides [?e])) = Some (ascii ''red'')"
    by (simp add: overrides_def is_milestone_def mk_event_def ascii_def)
  show ?thesis
    using override_replaces_color [OF h1 h2 h3, of palette0 "color_init palette0"] h1 h2 h3 c
    by (simp add: weekBox_def)
qed

section \<open>Compact mode\<close>

lemma collect_fold_eq:
  "{d. has_milestone M d} \<subseteq> mw \<Longrightarrow>
   fold (\<lambda>box mw. if type box = event \<and> has_milestone M (date box)
                   then insert (date box) mw else mw) bs mw = mw"
proof (induction bs arbitrary: mw)
  case Nil
  show ?case by simp
next
  case (Cons b bs)
  have "(if type b = event \<and> has_milestone M (date b) then insert (date b) mw else mw) = mw"
    using Cons.prems by (auto simp: insert_absorb)
  then show ?case using Cons by simp
qed

lemma collect_eq:
  "collectMilestoneWeeks M w = milestoneWeeks w \<union> {d. has_milestone M d}"
  unfolding collectMilestoneWeeks_def by (rule collect_fold_eq) simp

text \<open>
  The search of \<^verbatim>\<open>extractFirstEmoji\<close> fails exactly on the strings none of whose code
  points is in a range of the pattern.
\<close>

lemma emoji_code_point_ranges:
  "emoji_code_point cp =
     (in_range 0x2600 0x27BF cp \<or> in_range 0x1F000 0x1F270 cp \<or> in_range 0x1F300 0x1F64F cp
      \<or> in_range 0x1F680 0x1F6FF cp \<or> in_range 0x1F900 0x1F9FF cp)"
  unfolding emoji_code_point_def in_range_def by arith

lemma first_cp_code_points:
  "first_cp (u # r) = Some (cp, n) \<Longrightarrow> cp = hd (code_points (u # r))"
  by (cases r) (auto split: if_splits)

lemma emoji_match_at_None:
  "(emoji_match_at (u # r) = None) = (\<not> emoji_code_point (hd (code_points (u # r))))"
proof -
  have "first_cp (u # r) \<noteq> None" by (cases r) auto
  then obtain cp n where f: "first_cp (u # r) = Some (cp, n)" by auto
  have h: "hd (code_points (u # r)) = cp" using first_cp_code_points [OF f] by simp
  have ri: "regional_indicator cp \<Longrightarrow> in_range 0x1F018 0x1F270 cp"
    by (simp add: regional_indicator_def in_range_def)
  show ?thesis
    unfolding h emoji_match_at_def f emoji_code_point_def
    using ri by (auto split: option.splits)
qed

lemma emoji_search_None:
  "(emoji_search i s = None) = (\<not> list_ex emoji_code_point (code_points s))"
proof (induction i s rule: emoji_search.induct)
  case (1 i)
  show ?case by simp
next
  case (2 i u r)
  show ?case
  proof (cases "emoji_match_at (u # r)")
    case (Some n)
    then have "emoji_code_point (hd (code_points (u # r)))"
      using emoji_match_at_None [of u r] by simp
    moreover have "code_points (u # r) \<noteq> []" by (cases r) auto
    ultimately have "list_ex emoji_code_point (code_points (u # r))"
      by (cases "code_points (u # r)") auto
    then show ?thesis using Some by simp
  next
    case None
    then have n: "\<not> emoji_code_point (hd (code_points (u # r)))"
      using emoji_match_at_None [of u r] by simp
    show ?thesis
    proof (cases r)
      case Nil
      then show ?thesis using None n 2 by simp
    next
      case (Cons v r')
      show ?thesis
      proof (cases "is_high_surrogate u \<and> is_low_surrogate v")
        case True
        then show ?thesis using None n 2 Cons by simp
      next
        case False
        then show ?thesis using None n 2 Cons by auto
      qed
    qed
  qed
qed

lemma extractFirstEmoji_None: "(extractFirstEmoji s = None) = (\<not> has_emoji s)"
  unfolding has_emoji_def emoji_search_None [of 0 s, symmetric] extractFirstEmoji_def
  by (auto simp: Let_def split: option.splits)

text \<open>In compact mode a week with events gets an event box exactly for such a headline.\<close>

lemma compact_box:
  assumes "eventsForWeek mergedEvents wd nb = Some es" and "es \<noteq> []"
  shows "box_for_week True mergedEvents wd nb yr =
     (if has_emoji (headline (primaryEvent es)) then eventBox True (primaryEvent es) wd yr
      else weekBox wd yr)"
  using assms by (simp add: box_for_week_def Let_def shouldShowInCompact_def extractFirstEmoji_None)

text \<open>
  C8 (as amended). In compact mode, when no code point of the headline of the week's
  primary event, at whatever position, is in a range of the pattern of
  \<^verbatim>\<open>extractFirstEmoji\<close>, the walk pushes an empty week box instead of an event box; when
  the day the scan stopped at bears a milestone-flagged personal event, the week's date
  has been added to the milestone set all the same, it is in the set the colour walk
  tests, and the week box advances the colour index.
\<close>

theorem compact_suppression:
  assumes yr: "startYear cfg \<le> yr" "yr \<le> endYear cfg"
    and wk: "wk \<in> set [(if yr - startYear cfg = 0 then 0 else 1)..52]"
    and emitted: "weekDate cfg yr wk < anniversary cfg (yr + 1)"
    and found: "scan_days mergedEvents (weekDate cfg yr wk) (anniversary cfg (yr + 1))
                  [0, 1, 2, 3, 4, 5, 6] = Some (d, es)"
    and no_emoji: "\<not> has_emoji (headline (primaryEvent es))"
  shows
    "allBoxes (week_body cfg True mergedEvents yr wk st) =
       allBoxes st @ [weekBox (weekDate cfg yr wk) yr] \<and>
     type (weekBox (weekDate cfg yr wk) yr) = week \<and>
     label (weekBox (weekDate cfg yr wk) yr) = [] \<and>
     date (weekBox (weekDate cfg yr wk) yr) = weekDate cfg yr wk \<and>
     (list_ex is_milestone es \<longrightarrow>
        weekDate cfg yr wk \<in> milestoneWeeks (week_body cfg True mergedEvents yr wk st) \<and>
        weekDate cfg yr wk \<in> collectMilestoneWeeks mergedEvents (walk cfg True mergedEvents) \<and>
        colorIndex (color_step milestoneColors mergedEvents
                      (collectMilestoneWeeks mergedEvents (walk cfg True mergedEvents))
                      (weekBox (weekDate cfg yr wk) yr) cs) = colorIndex cs + 1)"
proof -
  let ?wd = "weekDate cfg yr wk"
  let ?nb = "anniversary cfg (yr + 1)"
  have ne: "es \<noteq> []" using scan_days_Some [OF found] by blast
  have ev: "eventsForWeek mergedEvents ?wd ?nb = Some es"
    unfolding eventsForWeek_def found by simp
  have box: "box_for_week True mergedEvents ?wd ?nb yr = weekBox ?wd yr"
    using no_emoji by (simp add: compact_box [OF ev ne])
  have boxes: "allBoxes (week_body cfg True mergedEvents yr wk st) = allBoxes st @ [weekBox ?wd yr]"
    using emitted by (simp add: week_body_boxes box)
  have ms: "week_has_milestone mergedEvents ?wd ?nb = list_ex is_milestone es"
    unfolding week_has_milestone_def found by (simp add: list_ex_iff filter_empty_conv)
  have fields: "type (weekBox ?wd yr) = week" "label (weekBox ?wd yr) = []" "date (weekBox ?wd yr) = ?wd"
    by (simp_all add: weekBox_def)
  have step: "list_ex is_milestone es \<longrightarrow>
        ?wd \<in> milestoneWeeks (week_body cfg True mergedEvents yr wk st) \<and>
        ?wd \<in> collectMilestoneWeeks mergedEvents (walk cfg True mergedEvents) \<and>
        colorIndex (color_step milestoneColors mergedEvents
                      (collectMilestoneWeeks mergedEvents (walk cfg True mergedEvents))
                      (weekBox ?wd yr) cs) = colorIndex cs + 1"
  proof
    assume m: "list_ex is_milestone es"
    have a: "?wd \<in> milestoneWeeks (week_body cfg True mergedEvents yr wk st)"
      using emitted m by (simp add: week_body_mw ms)
    have "?wd \<in> set (recorded_weeks cfg mergedEvents yr [(if yr - startYear cfg = 0 then 0 else 1)..52])"
      unfolding recorded_weeks_def using wk emitted m ms by (simp only: set_map set_filter) blast
    moreover have "yr \<in> set [startYear cfg..endYear cfg]" using yr by simp
    ultimately have "?wd \<in> milestoneWeeks (walk cfg True mergedEvents)"
      unfolding walk_mw by blast
    then have b: "?wd \<in> collectMilestoneWeeks mergedEvents (walk cfg True mergedEvents)"
      by (rule collect_walk_recorded)
    have c: "colorIndex (color_step milestoneColors mergedEvents
                      (collectMilestoneWeeks mergedEvents (walk cfg True mergedEvents))
                      (weekBox ?wd yr) cs) = colorIndex cs + 1"
      using b by (simp add: color_step_index fields)
    show "?wd \<in> milestoneWeeks (week_body cfg True mergedEvents yr wk st) \<and>
        ?wd \<in> collectMilestoneWeeks mergedEvents (walk cfg True mergedEvents) \<and>
        colorIndex (color_step milestoneColors mergedEvents
                      (collectMilestoneWeeks mergedEvents (walk cfg True mergedEvents))
                      (weekBox ?wd yr) cs) = colorIndex cs + 1"
      using a b c by simp
  qed
  show ?thesis using boxes fields step by simp
qed

lemmas emoji_eval =
  extractFirstEmoji_def emoji_match_at_def in_range_def regional_indicator_def
  is_high_surrogate_def is_low_surrogate_def shouldShowInCompact_def createCompactEventLabel_def

lemma no_emoji_started_job:
  "extractFirstEmoji (ascii ''Started job'') = None \<and> \<not> has_emoji (ascii ''Started job'')"
  by (simp add: emoji_eval has_emoji_def emoji_code_point_def ascii_def)

lemma rocket_at_end:
  "emoji_match_at (ascii ''Launch '' @ [0xD83D, 0xDE80]) = None \<and>
   extractFirstEmoji (ascii ''Launch '' @ [0xD83D, 0xDE80]) = Some [0xD83D, 0xDE80] \<and>
   code_points (ascii ''Launch '' @ [0xD83D, 0xDE80]) = [76, 97, 117, 110, 99, 104, 32, 0x1F680]"
  by (simp add: emoji_eval ascii_def)

text \<open>
  The pattern knows the check mark (U+2713) and not the star (U+2B50): a headline with a
  star and no other such glyph is treated as one without an emoji.
\<close>

lemma star_and_check_mark:
  "extractFirstEmoji (ascii ''Big '' @ [0x2B50] @ ascii '' day'') = None \<and>
   \<not> has_emoji (ascii ''Big '' @ [0x2B50] @ ascii '' day'') \<and>
   extractFirstEmoji (ascii ''Done '' @ [0x2713]) = Some [0x2713] \<and>
   has_emoji (ascii ''Done '' @ [0x2713])"
  by (simp add: emoji_eval has_emoji_def emoji_code_point_def ascii_def)

text \<open>
  A headline that ends in a rocket has no emoji at its head, and its event is shown in
  compact mode: the search finds the first emoji anywhere in the headline.
\<close>

theorem compact_leading_emoji_counterexample:
  "emoji_match_at (ascii ''Launch '' @ [0xD83D, 0xDE80]) = None \<and>
   trailing_emoji 10972 = None \<and>
   scan_days trailing_emoji 10972 11337 [0, 1, 2, 3, 4, 5, 6]
     = Some (10975, [mk_event personal (Some True) None (ascii ''Launch '' @ [0xD83D, 0xDE80])]) \<and>
   map type (allBoxes (week_body cfg2000 True trailing_emoji 2000 1
                \<lparr>milestoneWeeks = {}, allBoxes = []\<rparr>)) = [event] \<and>
   map label (allBoxes (week_body cfg2000 True trailing_emoji 2000 1
                \<lparr>milestoneWeeks = {}, allBoxes = []\<rparr>)) = [[0xD83D, 0xDE80]]"
proof -
  have s: "scan_days trailing_emoji 10972 11337 [0, 1, 2, 3, 4, 5, 6]
     = Some (10975, [mk_event personal (Some True) None (ascii ''Launch '' @ [0xD83D, 0xDE80])])"
    by (simp add: trailing_emoji_def Let_def)
  have a: "anniversary cfg2000 (2000 + 1) = 11337" using sample_anniversary by simp
  have p: "headline (primaryEvent [mk_event personal (Some True) None (ascii ''Launch '' @ [0xD83D, 0xDE80])])
      = ascii ''Launch '' @ [0xD83D, 0xDE80]"
    by (simp add: primaryEvent_def is_milestone_def mk_event_def)
  have ev: "eventsForWeek trailing_emoji 10972 11337
      = Some [mk_event personal (Some True) None (ascii ''Launch '' @ [0xD83D, 0xDE80])]"
    unfolding eventsForWeek_def s by simp
  have bx: "box_for_week True trailing_emoji 10972 11337 2000
      = eventBox True (primaryEvent [mk_event personal (Some True) None (ascii ''Launch '' @ [0xD83D, 0xDE80])]) 10972 2000"
    by (simp add: box_for_week_def ev Let_def p shouldShowInCompact_def rocket_at_end)
  have wd: "weekDate cfg2000 2000 1 = 10972" by (simp add: sample_weekDate)
  have b: "allBoxes (week_body cfg2000 True trailing_emoji 2000 1 \<lparr>milestoneWeeks = {}, allBoxes = []\<rparr>)
      = [eventBox True (primaryEvent [mk_event personal (Some True) None (ascii ''Launch '' @ [0xD83D, 0xDE80])]) 10972 2000]"
    by (simp add: week_body_boxes wd sample_anniversary bx)
  have t: "trailing_emoji 10972 = None" by (simp add: trailing_emoji_def)
  show ?thesis
    using rocket_at_end s t
    by (simp add: b eventBox_def p createCompactEventLabel_def)
qed

theorem compact_suppression_witness:
  "startYear cfg2000 \<le> 2000 \<and> 2000 \<le> endYear cfg2000 \<and>
   1 \<in> set [(if 2000 - startYear cfg2000 = 0 then 0 else 1)..52] \<and>
   weekDate cfg2000 2000 1 < anniversary cfg2000 (2000 + 1) \<and>
   scan_days plain_milestone (weekDate cfg2000 2000 1) (anniversary cfg2000 (2000 + 1))
     [0, 1, 2, 3, 4, 5, 6]
     = Some (10975, [mk_event personal (Some True) None (ascii ''Started job'')]) \<and>
   \<not> has_emoji (headline (primaryEvent [mk_event personal (Some True) None (ascii ''Started job'')])) \<and>
   list_ex is_milestone [mk_event personal (Some True) None (ascii ''Started job'')] \<and>
   allBoxes (week_body cfg2000 True plain_milestone 2000 1 \<lparr>milestoneWeeks = {}, allBoxes = []\<rparr>)
     = [weekBox 10972 2000] \<and>
   10972 \<in> milestoneWeeks (week_body cfg2000 True plain_milestone 2000 1
                              \<lparr>milestoneWeeks = {}, allBoxes = []\<rparr>) \<and>
   colorIndex (color_step palette0 plain_milestone
                 (collectMilestoneWeeks plain_milestone (walk cfg2000 True plain_milestone))
                 (weekBox 10972 2000) (color_init palette0)) = 1"
proof -
  let ?es = "[mk_event personal (Some True) None (ascii ''Started job'')]"
  have h1: "startYear cfg2000 \<le> 2000" "2000 \<le> endYear cfg2000" by (simp_all add: cfg2000_def)
  have h2: "1 \<in> set [(if 2000 - startYear cfg2000 = 0 then 0 else 1)..52]"
    by (simp add: cfg2000_def)
  have h3: "weekDate cfg2000 2000 1 < anniversary cfg2000 (2000 + 1)"
    by (simp add: sample_weekDate sample_anniversary)
  have a: "anniversary cfg2000 (2000 + 1) = 11337" using sample_anniversary by simp
  have h4: "scan_days plain_milestone (weekDate cfg2000 2000 1) (anniversary cfg2000 (2000 + 1))
     [0, 1, 2, 3, 4, 5, 6] = Some (10975, ?es)"
    unfolding sample_weekDate a by (simp add: plain_milestone_def Let_def)
  have p: "headline (primaryEvent ?es) = ascii ''Started job''"
    by (simp add: primaryEvent_def is_milestone_def mk_event_def)
  have h5: "\<not> has_emoji (headline (primaryEvent ?es))"
    unfolding p using no_emoji_started_job by (rule conjunct2)
  have m: "list_ex is_milestone ?es" by (simp add: is_milestone_def mk_event_def)
  have i: "colorIndex (color_init palette0) = 0" by (simp add: color_init_def)
  show ?thesis
    using compact_suppression [OF h1 h2 h3 h4 h5, of "\<lparr>milestoneWeeks = {}, allBoxes = []\<rparr>"
        palette0 "color_init palette0"] h1 h2 h3 h4 h5 m i
    by (simp add: sample_weekDate)
qed

section \<open>A milestone behind another event\<close>

lemma masked_no_week_milestone:
  "\<not> week_has_milestone masked_events (10965 + wk * 7) 11337"
proof (cases "wk = 1")
  case True
  then show ?thesis
    by (simp add: week_has_milestone_def masked_events_def Let_def mk_event_def is_milestone_def)
next
  case False
  show ?thesis
  proof
    assume w: "week_has_milestone masked_events (10965 + wk * 7) 11337"
    then obtain d es where
      s: "scan_days masked_events (10965 + wk * 7) 11337 [0, 1, 2, 3, 4, 5, 6] = Some (d, es)"
      and m: "filter is_milestone es \<noteq> []"
      by (auto simp: week_has_milestone_def split: option.splits)
    obtain day where day: "day \<in> set [0, 1, 2, 3, 4, 5, 6::int]" "d = 10965 + wk * 7 + day"
        "masked_events d = Some es"
      using scan_days_Some [OF s] by blast
    have "d = 10975"
      using day(3) m by (auto simp: masked_events_def mk_event_def is_milestone_def split: if_splits)
    then have "wk * 7 + day = 10" using day(2) by simp
    then have "wk = 1" using day(1) by auto
    then show False using False by simp
  qed
qed

lemma masked_has_milestone: "has_milestone masked_events d = (d = 10975)"
  by (simp add: has_milestone_def masked_events_def mk_event_def is_milestone_def)

lemma masked_no_override: "no_override masked_events d"
  by (simp add: no_override_def masked_events_def mk_event_def overrides_def)

lemma masked_recorded: "milestoneWeeks (walk cfg2000 False masked_events) = {}"
proof -
  have y: "[startYear cfg2000..endYear cfg2000] = [2000]"
    by (simp add: cfg2000_def upto_rec1)
  have "recorded_weeks cfg2000 masked_events 2000 ws = []" for ws
    by (simp add: recorded_weeks_def sample_weekDate sample_anniversary masked_no_week_milestone)
  then show ?thesis by (simp add: walk_mw y)
qed

text \<open>
  C6. The colour walk should give every milestone-flagged event its colour transition at
  or before the box of its week. With a world event on Monday 2000-01-17 and a personal
  milestone on Wednesday 2000-01-19, in the week that starts on Sunday 2000-01-16, the
  scan of that week stops at the Monday, so the walk records nothing and the week's box
  carries the Sunday's date; the milestone set holds the Wednesday's date alone, which no
  box carries. The colour pass, which is to check whether a box's week contains a
  milestone event, looks each box up under its own date: the index is still 0 at the end
  of the walk and all 53 boxes get the palette's first entry.
\<close>

theorem masked_milestone_no_transition:
  "masked_events 10975 = Some [mk_event personal (Some True) None (ascii ''Moved'')] \<and>
   is_milestone (mk_event personal (Some True) None (ascii ''Moved'')) \<and>
   getWeekStartSunday 10975 = 10972 \<and>
   allBoxes (walk cfg2000 False masked_events) ! 1
     = eventBox False (mk_event world None None (ascii ''Summit'')) 10972 2000 \<and>
   collectMilestoneWeeks masked_events (walk cfg2000 False masked_events) = {10975} \<and>
   10975 \<notin> set (map date (allBoxes (walk cfg2000 False masked_events))) \<and>
   colorIndex (assignColors palette0 masked_events (walk cfg2000 False masked_events)) = 0 \<and>
   currentBoxColor (assignColors palette0 masked_events (walk cfg2000 False masked_events))
     = Some (ascii ''A'') \<and>
   map (\<lambda>b. boxColorMap (assignColors palette0 masked_events (walk cfg2000 False masked_events))
              (date b))
     (allBoxes (walk cfg2000 False masked_events)) = replicate 53 (Some (Some (ascii ''A'')))"
proof -
  let ?w = "walk cfg2000 False masked_events"
  let ?mw = "collectMilestoneWeeks masked_events ?w"
  let ?bs = "sortedBoxes (allBoxes ?w)"
  let ?col = "assignColors palette0 masked_events ?w"
  have e1: "masked_events 10975 = Some [mk_event personal (Some True) None (ascii ''Moved'')]"
    by (simp add: masked_events_def)
  have e2: "is_milestone (mk_event personal (Some True) None (ascii ''Moved''))"
    by (simp add: is_milestone_def mk_event_def)
  have su: "getWeekStartSunday 10975 = 10972" by (simp add: date_eval)
  have sc: "scan_days masked_events 10972 11337 [0, 1, 2, 3, 4, 5, 6]
      = Some (10973, [mk_event world None None (ascii ''Summit'')])"
    by (simp add: masked_events_def Let_def)
  have ev: "eventsForWeek masked_events 10972 11337 = Some [mk_event world None None (ascii ''Summit'')]"
    unfolding eventsForWeek_def sc by simp
  have bx: "box_for_week False masked_events 10972 11337 2000
      = eventBox False (mk_event world None None (ascii ''Summit'')) 10972 2000"
    by (simp add: box_for_week_def ev Let_def primaryEvent_def is_milestone_def mk_event_def)
  have e3: "allBoxes ?w ! 1 = eventBox False (mk_event world None None (ascii ''Summit'')) 10972 2000"
    by (simp add: sample_boxes bx)
  have mw: "?mw = {10975}"
    by (auto simp: collect_eq masked_recorded masked_has_milestone)
  have dates: "\<forall>x \<in> set ?bs. date x \<notin> ?mw \<and> no_override masked_events (date x)"
  proof
    fix x assume "x \<in> set ?bs"
    then have "x \<in> set (allBoxes ?w)" by (simp add: sortedBoxes_def)
    then obtain wk where "date x = 10965 + wk * 7"
      by (auto simp: sample_boxes box_for_week_fields)
    then have "date x \<noteq> 10975" by presburger
    then show "date x \<notin> ?mw \<and> no_override masked_events (date x)"
      by (simp add: mw masked_no_override)
  qed
  have nb: "10975 \<notin> set (map date (allBoxes ?w))"
  proof
    assume "10975 \<in> set (map date (allBoxes ?w))"
    then obtain x where "x \<in> set (allBoxes ?w)" "date x = 10975" by auto
    then have "x \<in> set ?bs" "date x \<in> ?mw" by (simp_all add: sortedBoxes_def mw)
    then show False using dates by blast
  qed
  have init: "currentBoxColor (color_init palette0) = Some (ascii ''A'')"
    "colorIndex (color_init palette0) = 0"
    by (simp_all add: color_init_def js_nth_def palette0_def)
  have "filter (\<lambda>b. date b \<in> ?mw) ?bs = []"
    using dates by (simp add: filter_empty_conv)
  then have e4: "colorIndex ?col = 0"
    by (simp add: assignColors_def color_fold_index init)
  note keep = color_fold_keep [OF dates, of palette0 "color_init palette0"]
  have e5: "currentBoxColor ?col = Some (ascii ''A'')"
    using keep by (simp add: assignColors_def init)
  have all: "\<forall>x \<in> set (allBoxes ?w). boxColorMap ?col (date x) = Some (Some (ascii ''A''))"
    using keep by (simp add: assignColors_def init sortedBoxes_def)
  have len: "length (allBoxes ?w) = 53" by (simp add: sample_boxes)
  have "map (\<lambda>b. boxColorMap ?col (date b)) (allBoxes ?w)
      = map (\<lambda>b. Some (Some (ascii ''A''))) (allBoxes ?w)"
    using all by simp
  then have e6: "map (\<lambda>b. boxColorMap ?col (date b)) (allBoxes ?w)
      = replicate 53 (Some (Some (ascii ''A'')))"
    by (simp add: map_replicate_const len)
  show ?thesis using e1 e2 su e3 mw nb e4 e5 e6 by simp
qed

section \<open>An event without a headline\<close>

lemma scan_days_None:
  "\<forall>day \<in> set days. M (wd + day) = None \<Longrightarrow> scan_days M wd nb days = None"
  by (induction days) (simp_all add: Let_def)

lemma blank_box:
  "box_for_week False blank_headline (10965 + wk * 7) 11337 2000 =
   (if wk = 25 then eventBox False (mk_event personal None None []) 11140 2000
    else weekBox (10965 + wk * 7) 2000)"
proof (cases "wk = 25")
  case True
  have sc: "scan_days blank_headline 11140 11337 [0, 1, 2, 3, 4, 5, 6]
      = Some (11140, [mk_event personal None None []])"
    by (simp add: blank_headline_def Let_def)
  have ev: "eventsForWeek blank_headline 11140 11337 = Some [mk_event personal None None []]"
    unfolding eventsForWeek_def sc by simp
  show ?thesis
    using True by (simp add: box_for_week_def ev Let_def primaryEvent_def is_milestone_def mk_event_def)
next
  case False
  have "\<forall>day \<in> set [0, 1, 2, 3, 4, 5, 6::int]. blank_headline (10965 + wk * 7 + day) = None"
    using False by (auto simp: blank_headline_def)
  then have sc: "scan_days blank_headline (10965 + wk * 7) 11337 [0, 1, 2, 3, 4, 5, 6] = None"
    by (rule scan_days_None)
  have n: "blank_headline (10965 + wk * 7) = None"
    using False by (auto simp: blank_headline_def)
  have ev: "eventsForWeek blank_headline (10965 + wk * 7) 11337 = None"
    unfolding eventsForWeek_def sc by (simp add: n)
  show ?thesis using False by (simp add: box_for_week_def ev)
qed

text \<open>
  C5. Every row of the greedy packing pass should stay strictly below the effective
  container width unless it is a single over-wide box, a break being made exactly when
  appending the next box would reach that width. For a life of one year from 2000-01-15
  with one event on Sunday 2000-07-02 whose headline is empty, in a viewport of 1200
  pixels before the container is measured, the walk emits 25 week boxes, the event box
  and 27 week boxes. The first row holds the 25 week boxes, 650 pixels; the event box is
  17 pixels wide and would bring the row to 667, below the container width of 668; but
  \<^verbatim>\<open>shouldBreakBeforeBox\<close> sizes a box with an empty label as a week cell of 26 pixels,
  and the row is closed before the event box.
\<close>

theorem packing_breaks_early:
  "allBoxes (walk cfg2000 False blank_headline) =
     map (\<lambda>wk. weekBox (10965 + wk * 7) 2000) [0..24] @
     eventBox False (mk_event personal None None []) 11140 2000 #
     map (\<lambda>wk. weekBox (10965 + wk * 7) 2000) [26..52] \<and>
   snd (snd (WeeksGrid (Some (Fin 1200)) False cfg2000 palette0 blank_headline (Fin 0))) =
     [map (\<lambda>wk. weekBox (10965 + wk * 7) 2000) [0..24],
      eventBox False (mk_event personal None None []) 11140 2000 #
        map (\<lambda>wk. weekBox (10965 + wk * 7) 2000) [26..50],
      map (\<lambda>wk. weekBox (10965 + wk * 7) 2000) [51..52]] \<and>
   rowWidth (Some (Fin 1200)) False None (map (\<lambda>wk. weekBox (10965 + wk * 7) 2000) [0..24])
     = Fin 650 \<and>
   boxWidth (Some (Fin 1200)) False None (eventBox False (mk_event personal None None []) 11140 2000)
     = Fin 17 \<and>
   rowWidth (Some (Fin 1200)) False None
     (map (\<lambda>wk. weekBox (10965 + wk * 7) 2000) [0..24] @
      [eventBox False (mk_event personal None None []) 11140 2000]) = Fin 667 \<and>
   containerWidth (getResponsiveConstants (Some (Fin 1200)) False None) = Fin 668 \<and>
   shouldBreakBeforeBox (Some (Fin 1200)) (Fin 650)
     (label (eventBox False (mk_event personal None None []) 11140 2000)) False None"
proof -
  have b: "allBoxes (walk cfg2000 False blank_headline) =
      map (\<lambda>wk. weekBox (10965 + wk * 7) 2000) [0..24] @
      eventBox False (mk_event personal None None []) 11140 2000 #
      map (\<lambda>wk. weekBox (10965 + wk * 7) 2000) [26..52]"
  proof -
    let ?f = "\<lambda>wk. box_for_week False blank_headline (10965 + wk * 7) 11337 2000"
    let ?g = "\<lambda>wk. weekBox (10965 + wk * 7) 2000"
    have s: "[0..52] = [0..24] @ 25 # [26..52]" using upto_split3 [of 0 25 52] by simp
    have l: "map ?f [0..24] = map ?g [0..24]"
    proof (rule map_cong [OF refl])
      fix x :: int assume "x \<in> set [0..24]"
      then have "x \<noteq> 25" unfolding set_upto by simp
      then show "?f x = ?g x" by (simp add: blank_box)
    qed
    have u: "map ?f [26..52] = map ?g [26..52]"
    proof (rule map_cong [OF refl])
      fix x :: int assume "x \<in> set [26..52]"
      then have "x \<noteq> 25" unfolding set_upto by simp
      then show "?f x = ?g x" by (simp add: blank_box)
    qed
    have m: "?f 25 = eventBox False (mk_event personal None None []) 11140 2000"
      using blank_box [of 25] by simp
    show ?thesis
      unfolding sample_boxes s map_append list.map l u m by (rule refl)
  qed
  have r: "processBoxesIntoRows (Some (Fin 1200)) (allBoxes (walk cfg2000 False blank_headline))
        False None =
     [map (\<lambda>wk. weekBox (10965 + wk * 7) 2000) [0..24],
      eventBox False (mk_event personal None None []) 11140 2000 #
        map (\<lambda>wk. weekBox (10965 + wk * 7) 2000) [26..50],
      map (\<lambda>wk. weekBox (10965 + wk * 7) 2000) [51..52]]"
    unfolding b by (simp add: layout_eval upto_rec1 weekBox_def eventBox_def mk_event_def)
  have w: "rowWidth (Some (Fin 1200)) False None (map (\<lambda>wk. weekBox (10965 + wk * 7) 2000) [0..24])
     = Fin 650"
    by (simp add: layout_eval upto_rec1 weekBox_def)
  have e: "boxWidth (Some (Fin 1200)) False None
      (eventBox False (mk_event personal None None []) 11140 2000) = Fin 17"
    by (simp add: layout_eval eventBox_def mk_event_def)
  have w2: "rowWidth (Some (Fin 1200)) False None
     (map (\<lambda>wk. weekBox (10965 + wk * 7) 2000) [0..24] @
      [eventBox False (mk_event personal None None []) 11140 2000]) = Fin 667"
    by (simp add: layout_eval upto_rec1 weekBox_def eventBox_def mk_event_def)
  have c: "containerWidth (getResponsiveConstants (Some (Fin 1200)) False None) = Fin 668"
    by (simp add: layout_eval)
  have t: "shouldBreakBeforeBox (Some (Fin 1200)) (Fin 650)
     (label (eventBox False (mk_event personal None None []) 11140 2000)) False None"
    by (simp add: layout_eval eventBox_def mk_event_def)
  have g: "snd (snd (WeeksGrid (Some (Fin 1200)) False cfg2000 palette0 blank_headline (Fin 0))) =
      processBoxesIntoRows (Some (Fin 1200)) (allBoxes (walk cfg2000 False blank_headline))
        False None"
    by (simp add: WeeksGrid_def Let_def js_gt_def)
  show ?thesis unfolding g r using b w e w2 c t by simp
qed

end
